theory Spec2Isabelle
  imports Main "HOL-Library.Word" "HOL-Library.Sublist"
begin

section \<open>Configuration constants (config.h)\<close>

definition RELAY_CH1 :: nat where "RELAY_CH1 = 17"
definition RELAY_CH2 :: nat where "RELAY_CH2 = 18"
definition RELAY_CH3 :: nat where "RELAY_CH3 = 19"
definition RELAY_CH4 :: nat where "RELAY_CH4 = 20"
definition RELAY_CH5 :: nat where "RELAY_CH5 = 21"
definition RELAY_CH6 :: nat where "RELAY_CH6 = 22"
definition RELAY_CH7 :: nat where "RELAY_CH7 = 23"
definition RELAY_CH8 :: nat where "RELAY_CH8 = 24"

definition RELAY_COUNT :: nat where "RELAY_COUNT = 8"

text \<open>The local table \<open>relay_pins[]\<close> of \<open>relay_init\<close> and \<open>set_relay\<close>.\<close>

definition relay_pins :: "nat list" where
  "relay_pins = [RELAY_CH1, RELAY_CH2, RELAY_CH3, RELAY_CH4,
                 RELAY_CH5, RELAY_CH6, RELAY_CH7, RELAY_CH8]"

section \<open>Faults\<close>

text \<open>
  What C leaves undefined is a value of the model: an access outside an array, and a
  \<open>%s\<close> conversion that stores more bytes than its destination holds.
\<close>

datatype fault = Index_out_of_range | Buffer_overrun

definition and_then :: "fault + 'a \<Rightarrow> ('a \<Rightarrow> fault + 'b) \<Rightarrow> fault + 'b" where
  "and_then m f = (case m of Inl e \<Rightarrow> Inl e | Inr x \<Rightarrow> f x)"

text \<open>\<open>a[i]\<close> read and written, with the index an \<open>int\<close> as in C.\<close>

definition array_get :: "'a list \<Rightarrow> int \<Rightarrow> fault + 'a" where
  "array_get a i = (if 0 \<le> i \<and> i < int (length a) then Inr (a ! nat i) else Inl Index_out_of_range)"

definition array_set :: "'a list \<Rightarrow> int \<Rightarrow> 'a \<Rightarrow> fault + 'a list" where
  "array_set a i v = (if 0 \<le> i \<and> i < int (length a) then Inr (a[nat i := v]) else Inl Index_out_of_range)"

section \<open>C strings and the library calls the server makes\<close>

text \<open>
  A buffer is a list of bytes; the string a \<open>char *\<close> denotes is what stands before
  the first NUL. The receive buffer is NUL-terminated by \<open>http_server_run\<close>, so the
  string is the received bytes up to the first NUL among them.
\<close>

definition c_str :: "string \<Rightarrow> string" where
  "c_str buf = takeWhile (\<lambda>c. c \<noteq> CHR 0x00) buf"

text \<open>\<open>s[i]\<close> in a zero-initialised buffer that holds the string \<open>s\<close>.\<close>

definition char_at :: "string \<Rightarrow> nat \<Rightarrow> char" where
  "char_at s i = (if i < length s then s ! i else CHR 0x00)"

text \<open>\<open>isspace\<close> in the C locale: space, \<open>\t \n \v \f \r\<close>.\<close>

definition isspace :: "char \<Rightarrow> bool" where
  "isspace c = (c = CHR 0x20 \<or> c = CHR 0x09 \<or> c = CHR 0x0A \<or> c = CHR 0x0B \<or> c = CHR 0x0C \<or> c = CHR 0x0D)"

text \<open>
  One \<open>%s\<close> conversion into a destination of \<open>dst_size\<close> bytes: white space is
  skipped, then the characters up to the next white space are stored, and a NUL after
  them. At the end of the input nothing is stored (\<open>None\<close>). The conversion has no
  field width, so a token of \<open>dst_size\<close> characters or more is written past the
  destination.
\<close>

definition scan_s :: "string \<Rightarrow> nat \<Rightarrow> fault + (string option \<times> string)" where
  "scan_s input dst_size =
     (let s = dropWhile isspace input;
          tok = takeWhile (\<lambda>c. \<not> isspace c) s;
          rest = dropWhile (\<lambda>c. \<not> isspace c) s
      in if tok = [] then Inr (None, rest)
         else if dst_size < length tok + 1 then Inl Buffer_overrun
         else Inr (Some tok, rest))"

text \<open>
  \<open>sscanf(request, "%s %s", method, uri)\<close> with \<open>method\<close> and \<open>uri\<close> zero-initialised:
  a destination that is not assigned stays the empty string. The blank of the format
  skips white space, which the second \<open>%s\<close> does anyway.
\<close>

definition sscanf_s_s :: "string \<Rightarrow> nat \<Rightarrow> nat \<Rightarrow> fault + (string \<times> string)" where
  "sscanf_s_s input size1 size2 =
     and_then (scan_s input size1) (\<lambda>(t1, rest).
       case t1 of
         None \<Rightarrow> Inr ([], [])
       | Some s1 \<Rightarrow>
           and_then (scan_s rest size2) (\<lambda>(t2, _).
             case t2 of
               None \<Rightarrow> Inr (s1, [])
             | Some s2 \<Rightarrow> Inr (s1, s2)))"

text \<open>\<open>strstr\<close>: the suffix that starts at the first occurrence, or \<open>None\<close> for NULL.\<close>

fun strstr :: "string \<Rightarrow> string \<Rightarrow> string option" where
  "strstr [] needle = (if needle = [] then Some [] else None)"
| "strstr (c # cs) needle =
     (if prefix needle (c # cs) then Some (c # cs) else strstr cs needle)"

text \<open>\<open>strncmp(a, b, n) == 0\<close> on strings.\<close>

definition strncmp_eq :: "string \<Rightarrow> string \<Rightarrow> nat \<Rightarrow> bool" where
  "strncmp_eq a b n = (take n a = take n b)"

text \<open>\<open>%d\<close>: a decimal numeral, with a sign when negative.\<close>

definition digit_char :: "nat \<Rightarrow> char" where
  "digit_char d = ''0123456789'' ! d"

fun fmt_u :: "nat \<Rightarrow> string" where
  "fmt_u n = (if n < 10 then [digit_char n] else fmt_u (n div 10) @ [digit_char (n mod 10)])"

declare fmt_u.simps [simp del]

definition fmt_d :: "int \<Rightarrow> string" where
  "fmt_d i = (if i < 0 then CHR ''-'' # fmt_u (nat (- i)) else fmt_u (nat i))"

text \<open>\<open>snprintf\<close> keeps at most \<open>size - 1\<close> characters of the formatted text.\<close>

definition snprintf :: "nat \<Rightarrow> string \<Rightarrow> string" where
  "snprintf bufsize s = take (bufsize - 1) s"

definition CRLF :: string where
  "CRLF = [CHR 0x0D, CHR 0x0A]"

section \<open>The state the server acts on\<close>

text \<open>
  The global array \<open>g_relay_states\<close>, the calls made to the GPIO driver and the byte
  strings handed to \<open>send\<close>, in order. Console output (\<open>printf\<close>) is left out.
\<close>

datatype gpio_call = Gpio_init nat | Gpio_set_dir_out nat | Gpio_put nat bool

record world =
  g_relay_states :: "8 word list"
  gpio :: "gpio_call list"
  sent :: "string list"

text \<open>\<open>uint8_t g_relay_states[RELAY_COUNT] = {0}\<close> at program start.\<close>

definition startup :: world where
  "startup = \<lparr>g_relay_states = replicate RELAY_COUNT 0, gpio = [], sent = []\<rparr>"

section \<open>The relay store (main.c)\<close>

text \<open>\<open>relay_init\<close>: the body of the loop, for the values of \<open>i\<close> in order.\<close>

fun relay_init_loop :: "int list \<Rightarrow> world \<Rightarrow> fault + world" where
  "relay_init_loop [] w = Inr w"
| "relay_init_loop (i # rest) w =
     and_then (array_get relay_pins i) (\<lambda>pin.
     and_then (array_set (g_relay_states w) i 0) (\<lambda>states.
       relay_init_loop rest
         (w\<lparr>gpio := gpio w @ [Gpio_init pin, Gpio_set_dir_out pin, Gpio_put pin False],
            g_relay_states := states\<rparr>)))"

definition relay_init :: "world \<Rightarrow> fault + world" where
  "relay_init w = relay_init_loop [0..int RELAY_COUNT - 1] w"

text \<open>
  \<open>set_relay(uint8_t relay_num, uint8_t state)\<close>. The comparison and the subtraction
  are done on the promoted \<open>int\<close> values.
\<close>

definition set_relay :: "8 word \<Rightarrow> 8 word \<Rightarrow> world \<Rightarrow> fault + world" where
  "set_relay relay_num state w =
     (if 1 \<le> uint relay_num \<and> uint relay_num \<le> int RELAY_COUNT then
        and_then (array_get relay_pins (uint relay_num - 1)) (\<lambda>pin.
        and_then (array_set (g_relay_states w) (uint relay_num - 1) (if state \<noteq> 0 then 1 else 0)) (\<lambda>states.
          Inr (w\<lparr>gpio := gpio w @ [Gpio_put pin (state \<noteq> 0)], g_relay_states := states\<rparr>)))
      else Inr w)"

text \<open>
  \<open>get_relays_json\<close>: the eight entries are read at the constant indices 0 to 7 and
  printed with \<open>%d\<close> after promotion to \<open>int\<close>. \<open>relay_entry\<close> is the piece of the
  format string for one key, with its \<open>%d\<close> filled in.
\<close>

definition relay_entry :: "string \<Rightarrow> 8 word \<Rightarrow> string" where
  \<open>relay_entry key v = ''"'' @ key @ ''":{"state":'' @ fmt_d (uint v) @ ''}''\<close>

definition get_relays_json :: "nat \<Rightarrow> world \<Rightarrow> fault + string" where
  "get_relays_json bufsize w =
     and_then (array_get (g_relay_states w) 0) (\<lambda>s0.
     and_then (array_get (g_relay_states w) 1) (\<lambda>s1.
     and_then (array_get (g_relay_states w) 2) (\<lambda>s2.
     and_then (array_get (g_relay_states w) 3) (\<lambda>s3.
     and_then (array_get (g_relay_states w) 4) (\<lambda>s4.
     and_then (array_get (g_relay_states w) 5) (\<lambda>s5.
     and_then (array_get (g_relay_states w) 6) (\<lambda>s6.
     and_then (array_get (g_relay_states w) 7) (\<lambda>s7.
       Inr (snprintf bufsize
         (''{'' @ relay_entry ''relay_1'' s0 @ '','' @ relay_entry ''relay_2'' s1 @ '',''
               @ relay_entry ''relay_3'' s2 @ '','' @ relay_entry ''relay_4'' s3 @ '',''
               @ relay_entry ''relay_5'' s4 @ '','' @ relay_entry ''relay_6'' s5 @ '',''
               @ relay_entry ''relay_7'' s6 @ '','' @ relay_entry ''relay_8'' s7 @ ''}''))))))))))"

section \<open>Responses and routing (main.c)\<close>

text \<open>
  \<open>send_http_response\<close>: the header is formatted into 256 bytes and sent, then the
  body. \<open>strlen(body)\<close> is a 32-bit \<open>size_t\<close> printed with \<open>%d\<close>, so it is read as a
  signed 32-bit value. The socket number is the same in every call and is left out.
\<close>

definition http_header :: "string \<Rightarrow> string \<Rightarrow> string \<Rightarrow> string" where
  "http_header status content_type body =
     snprintf 256
       (''HTTP/1.1 '' @ status @ CRLF @
        ''Content-Type: '' @ content_type @ CRLF @
        ''Content-Length: '' @ fmt_d (sint (word_of_nat (length body) :: 32 word)) @ CRLF @
        ''Connection: close'' @ CRLF @ CRLF)"

definition send_http_response :: "string \<Rightarrow> string \<Rightarrow> string \<Rightarrow> world \<Rightarrow> world" where
  "send_http_response status content_type body w =
     w\<lparr>sent := sent w @ [http_header status content_type body, body]\<rparr>"

text \<open>The substrings the body is searched for, and the fixed response bodies.\<close>

definition state_1 :: string where
  \<open>state_1 = ''"state":1''\<close>

definition state_sp_1 :: string where
  \<open>state_sp_1 = ''"state": 1''\<close>

definition state_0 :: string where
  \<open>state_0 = ''"state":0''\<close>

definition state_sp_0 :: string where
  \<open>state_sp_0 = ''"state": 0''\<close>

definition success_true :: string where
  \<open>success_true = ''{"success":true}''\<close>

text \<open>\<open>for (int i = 1; i <= RELAY_COUNT; i++) set_relay(i, state)\<close>.\<close>

fun set_all_loop :: "int list \<Rightarrow> int \<Rightarrow> world \<Rightarrow> fault + world" where
  "set_all_loop [] state w = Inr w"
| "set_all_loop (i # rest) state w =
     and_then (set_relay (word_of_int i) (word_of_int state) w) (set_all_loop rest state)"

text \<open>
  \<open>process_http_request\<close>. \<open>HTML_PAGE\<close> is the string of web\_pages.h, which the
  function takes as a parameter here. \<open>len\<close> is not used by the source. \<open>relay_num\<close>
  is computed in \<open>int\<close> from the character code (0 to 255) and converted to
  \<open>uint8_t\<close> at the call of \<open>set_relay\<close>, as \<open>state\<close> is; where \<open>char\<close> is signed
  the converted value is the same.
\<close>

definition process_http_request :: "string \<Rightarrow> string \<Rightarrow> world \<Rightarrow> fault + world" where
  "process_http_request HTML_PAGE request w =
     and_then (sscanf_s_s (c_str request) 16 128) (\<lambda>(method, uri).
       if method = ''GET'' then
         if uri = ''/'' \<or> uri = ''/index.html'' then
           Inr (send_http_response ''200 OK'' ''text/html'' HTML_PAGE w)
         else if uri = ''/api/relays'' then
           and_then (get_relays_json 512 w) (\<lambda>response_buf.
             Inr (send_http_response ''200 OK'' ''application/json'' response_buf w))
         else
           Inr (send_http_response ''404 Not Found'' ''text/plain'' ''Not Found'' w)
       else if method = ''POST'' then
         if strncmp_eq uri ''/api/relay/'' 11 then
           (let relay_num = of_char (char_at uri 11) - of_char (CHR ''0'') :: int in
            case strstr (c_str request) (CRLF @ CRLF) of
              None \<Rightarrow> Inr w
            | Some found \<Rightarrow>
                (let body = drop 4 found;
                     state = (if strstr body state_1 \<noteq> None \<or> strstr body state_sp_1 \<noteq> None then 1
                              else if strstr body state_0 \<noteq> None \<or> strstr body state_sp_0 \<noteq> None then 0
                              else 0) :: int
                 in and_then (set_relay (word_of_int relay_num) (word_of_int state) w) (\<lambda>w'.
                      Inr (send_http_response ''200 OK'' ''application/json'' success_true w'))))
         else if uri = ''/api/relays/all/on'' then
           and_then (set_all_loop [1..int RELAY_COUNT] 1 w) (\<lambda>w'.
             Inr (send_http_response ''200 OK'' ''application/json'' success_true w'))
         else if uri = ''/api/relays/all/off'' then
           and_then (set_all_loop [1..int RELAY_COUNT] 0 w) (\<lambda>w'.
             Inr (send_http_response ''200 OK'' ''application/json'' success_true w'))
         else
           Inr (send_http_response ''404 Not Found'' ''text/plain'' ''Not Found'' w)
       else Inr w)"

section \<open>The invariant of the relay store\<close>

text \<open>Eight entries, each of them 0 or 1.\<close>

definition relay_store_ok :: "8 word list \<Rightarrow> bool" where
  "relay_store_ok states = (length states = RELAY_COUNT \<and> list_all (\<lambda>v. v = 0 \<or> v = 1) states)"

section \<open>Facts about the library calls\<close>

lemma strstr_Some_sublist: "strstr h n = Some s \<Longrightarrow> \<exists>p. h = p @ s \<and> prefix n s"
proof (induction h)
  case Nil
  then show ?case by (simp split: if_splits)
next
  case (Cons c cs)
  show ?case
  proof (cases "prefix n (c # cs)")
    case True
    with Cons.prems show ?thesis by auto
  next
    case False
    with Cons.prems have "strstr cs n = Some s" by simp
    from Cons.IH [OF this] obtain p where "cs = p @ s" "prefix n s" by blast
    then have "c # cs = (c # p) @ s" by simp
    with \<open>prefix n s\<close> show ?thesis by blast
  qed
qed

lemma strstr_None_iff: "strstr h n = None \<longleftrightarrow> \<not> sublist n h"
proof (induction h)
  case Nil
  then show ?case by simp
next
  case (Cons c cs)
  then show ?case by (simp add: sublist_Cons_right)
qed

lemma strstr_sublist: "strstr h n \<noteq> None \<longleftrightarrow> sublist n h"
  by (simp add: strstr_None_iff)

lemma sublist_c_str: "sublist n (c_str buf) \<Longrightarrow> sublist n buf"
proof -
  have "buf = c_str buf @ dropWhile (\<lambda>c. c \<noteq> CHR 0x00) buf"
    by (simp add: c_str_def)
  then have "sublist (c_str buf) buf"
    by (metis sublist_appendI append_Nil)
  then show "sublist n (c_str buf) \<Longrightarrow> sublist n buf"
    using sublist_order.order_trans by blast
qed

lemma fmt_u_length: "n < 1000 \<Longrightarrow> length (fmt_u n) \<le> 3"
  by (simp add: fmt_u.simps [of n] fmt_u.simps [of "n div 10"] fmt_u.simps [of "n div 10 div 10"])

lemma fmt_d_u8_length: "length (fmt_d (uint (v :: 8 word))) \<le> 3"
proof -
  have "unat v < 2 ^ 8" using unsigned_less [of v, where ?'a = nat] by simp
  then have "unat v < 1000" by simp
  then show ?thesis by (simp add: fmt_d_def fmt_u_length)
qed

lemma set_relay_in_range:
  assumes "length (g_relay_states w) = RELAY_COUNT" and "1 \<le> uint n" and "uint n \<le> 8"
  shows "set_relay n s w =
           Inr (w\<lparr>gpio := gpio w @ [Gpio_put (relay_pins ! nat (uint n - 1)) (s \<noteq> 0)],
                  g_relay_states := (g_relay_states w)[nat (uint n - 1) := (if s \<noteq> 0 then 1 else 0)]\<rparr>)"
  using assms
  by (simp add: set_relay_def and_then_def array_get_def array_set_def RELAY_COUNT_def relay_pins_def)

lemma set_relay_out_of_range:
  "\<not> (1 \<le> uint n \<and> uint n \<le> 8) \<Longrightarrow> set_relay n s w = Inr w"
  by (auto simp add: set_relay_def RELAY_COUNT_def)

lemma upto_1_8: "[1..int RELAY_COUNT] = [1, 2, 3, 4, 5, 6, 7, 8]"
  by (simp add: RELAY_COUNT_def upto_rec1)

lemma upto_0_7: "[0..int RELAY_COUNT - 1] = [0, 1, 2, 3, 4, 5, 6, 7]"
  by (simp add: RELAY_COUNT_def upto_rec1)

lemma length_8_elems:
  "length (rs :: 'a list) = 8 \<Longrightarrow> \<exists>a b c d e f g h. rs = [a, b, c, d, e, f, g, h]"
  by (auto simp: eval_nat_numeral length_Suc_conv)

lemma set_all_loop_on:
  assumes "length (g_relay_states w) = RELAY_COUNT"
  shows "set_all_loop [1..int RELAY_COUNT] 1 w =
           Inr (w\<lparr>gpio := gpio w @ map (\<lambda>pin. Gpio_put pin True) relay_pins,
                  g_relay_states := replicate RELAY_COUNT 1\<rparr>)"
proof -
  from assms obtain a b c d e f g h where rs: "g_relay_states w = [a, b, c, d, e, f, g, h]"
    using length_8_elems [of "g_relay_states w"] by (auto simp: RELAY_COUNT_def)
  have rep: "replicate RELAY_COUNT (1 :: 8 word) = [1, 1, 1, 1, 1, 1, 1, 1]"
    by (simp add: RELAY_COUNT_def eval_nat_numeral)
  show ?thesis
    unfolding upto_1_8 rep
    by (simp add: rs set_relay_def and_then_def array_get_def array_set_def relay_pins_def
        RELAY_COUNT_def list_update_code)
qed

lemma set_all_loop_off:
  assumes "length (g_relay_states w) = RELAY_COUNT"
  shows "set_all_loop [1..int RELAY_COUNT] 0 w =
           Inr (w\<lparr>gpio := gpio w @ map (\<lambda>pin. Gpio_put pin False) relay_pins,
                  g_relay_states := replicate RELAY_COUNT 0\<rparr>)"
proof -
  from assms obtain a b c d e f g h where rs: "g_relay_states w = [a, b, c, d, e, f, g, h]"
    using length_8_elems [of "g_relay_states w"] by (auto simp: RELAY_COUNT_def)
  have rep: "replicate RELAY_COUNT (0 :: 8 word) = [0, 0, 0, 0, 0, 0, 0, 0]"
    by (simp add: RELAY_COUNT_def eval_nat_numeral)
  show ?thesis
    unfolding upto_1_8 rep
    by (simp add: rs set_relay_def and_then_def array_get_def array_set_def relay_pins_def
        RELAY_COUNT_def list_update_code)
qed

lemma relay_init_result:
  assumes "length (g_relay_states w) = RELAY_COUNT"
  shows "\<exists>w'. relay_init w = Inr w' \<and> g_relay_states w' = replicate RELAY_COUNT 0 \<and> sent w' = sent w"
proof -
  from assms obtain a b c d e f g h where rs: "g_relay_states w = [a, b, c, d, e, f, g, h]"
    using length_8_elems [of "g_relay_states w"] by (auto simp: RELAY_COUNT_def)
  have rep: "replicate RELAY_COUNT (0 :: 8 word) = [0, 0, 0, 0, 0, 0, 0, 0]"
    by (simp add: RELAY_COUNT_def eval_nat_numeral)
  show ?thesis
    unfolding relay_init_def upto_0_7 rep
    by (simp add: rs and_then_def array_get_def array_set_def relay_pins_def list_update_code)
qed

lemma relay_num_of_digit:
  assumes "1 \<le> n" and "n \<le> 8"
  shows "uint (word_of_int (of_char (digit_char n) - of_char (CHR ''0'')) :: 8 word) = int n"
proof -
  have "list_all (\<lambda>k. uint (word_of_int (of_char (digit_char k) - of_char (CHR ''0'')) :: 8 word) = int k)
          [1, 2, 3, 4, 5, 6, 7, 8]"
    by (simp add: digit_char_def)
  moreover from assms have "n \<in> set [1, 2, 3, 4, 5, 6, 7, 8]"
    by simp arith
  ultimately show ?thesis
    unfolding list_all_iff by (rule bspec)
qed

lemma mod_256_digit_range:
  fixes j :: int
  assumes "0 \<le> j" and "j < 256" and "1 \<le> (j - 48) mod 256" and "(j - 48) mod 256 \<le> 8"
  shows "49 \<le> j \<and> j \<le> 56"
proof (cases "48 \<le> j")
  case True
  with \<open>j < 256\<close> have "(j - 48) mod 256 = j - 48" by simp
  with assms show ?thesis by simp
next
  case False
  have "(j - 48) mod 256 = (j - 48 + 256) mod 256"
    by (simp only: mod_add_self2)
  moreover from False \<open>0 \<le> j\<close> have "(j - 48 + 256) mod 256 = j + 208"
    by simp
  ultimately show ?thesis using assms by simp
qed

lemma relay_num_not_digit:
  assumes "c \<notin> set ''12345678''"
  shows "\<not> (1 \<le> uint (word_of_int (of_char c - of_char (CHR ''0'')) :: 8 word)
           \<and> uint (word_of_int (of_char c - of_char (CHR ''0'')) :: 8 word) \<le> 8)"
proof
  assume in_range: "1 \<le> uint (word_of_int (of_char c - of_char (CHR ''0'')) :: 8 word)
           \<and> uint (word_of_int (of_char c - of_char (CHR ''0'')) :: 8 word) \<le> 8"
  define j where "j = (of_char c :: int)"
  have "j = int (of_char c)"
    by (simp add: j_def of_nat_of_char)
  with nat_of_char_less_256 [of c] have jb: "0 \<le> j" "j < 256"
    by simp_all
  have u: "uint (word_of_int x :: 8 word) = x mod 256" for x
    by (simp add: uint_word_of_int)
  from in_range have "1 \<le> (j - of_char (CHR ''0'')) mod 256 \<and> (j - of_char (CHR ''0'')) mod 256 \<le> 8"
    unfolding u j_def .
  then have "1 \<le> (j - 48) mod 256" "(j - 48) mod 256 \<le> 8"
    by simp_all
  with jb have "49 \<le> j \<and> j \<le> 56"
    by (rule mod_256_digit_range)
  then have "j = 49 \<or> j = 50 \<or> j = 51 \<or> j = 52 \<or> j = 53 \<or> j = 54 \<or> j = 55 \<or> j = 56"
    by arith
  then have "j = of_char (CHR ''1'') \<or> j = of_char (CHR ''2'') \<or> j = of_char (CHR ''3'')
      \<or> j = of_char (CHR ''4'') \<or> j = of_char (CHR ''5'') \<or> j = of_char (CHR ''6'')
      \<or> j = of_char (CHR ''7'') \<or> j = of_char (CHR ''8'')"
    by simp
  then have "c \<in> set ''12345678''"
    unfolding j_def of_char_eq_iff by simp
  with assms show False by contradiction
qed

text \<open>
  The scan on a request line of the usual shape: a method and a target without white
  space or NUL, short enough for their destinations, each followed by a blank.
\<close>

lemma scan_s_token:
  assumes "tok \<noteq> []" and "\<forall>c \<in> set tok. \<not> isspace c" and "length tok < n" and "isspace d"
  shows "scan_s (tok @ d # rest) n = Inr (Some tok, d # rest)"
proof -
  from assms(1) obtain t ts where tok: "tok = t # ts"
    by (cases tok) simp_all
  with assms(2) have "\<not> isspace t"
    by simp
  then have skip: "dropWhile isspace (tok @ d # rest) = tok @ d # rest"
    by (simp add: tok)
  have "takeWhile (\<lambda>c. \<not> isspace c) (tok @ d # rest) = tok"
    using assms(2,4) by (simp add: takeWhile_append2)
  moreover have "dropWhile (\<lambda>c. \<not> isspace c) (tok @ d # rest) = d # rest"
    using assms(2,4) by (simp add: dropWhile_append2)
  ultimately show ?thesis
    using assms(1,3) by (simp add: scan_s_def skip)
qed

lemma scan_s_skips_blank:
  "scan_s (CHR 0x20 # input) n = scan_s input n"
  by (simp add: scan_s_def isspace_def)

lemma request_line_scan:
  assumes m: "m \<noteq> []" "\<forall>c \<in> set m. \<not> isspace c \<and> c \<noteq> CHR 0x00" "length m < 16"
    and u: "u \<noteq> []" "\<forall>c \<in> set u. \<not> isspace c \<and> c \<noteq> CHR 0x00" "length u < 128"
  shows "sscanf_s_s (c_str (m @ '' '' @ u @ '' '' @ rest)) 16 128 = Inr (m, u)"
proof -
  have sp: "isspace (CHR 0x20)"
    by (simp add: isspace_def)
  have "c_str (m @ '' '' @ u @ '' '' @ rest) = m @ CHR 0x20 # (u @ CHR 0x20 # c_str rest)"
    using m(2) u(2) by (simp add: c_str_def takeWhile_append2)
  moreover have "scan_s (m @ CHR 0x20 # (u @ CHR 0x20 # c_str rest)) 16
      = Inr (Some m, CHR 0x20 # (u @ CHR 0x20 # c_str rest))"
    using m sp by (intro scan_s_token) simp_all
  moreover have "scan_s (CHR 0x20 # (u @ CHR 0x20 # c_str rest)) 128 = Inr (Some u, CHR 0x20 # c_str rest)"
    unfolding scan_s_skips_blank using u sp by (intro scan_s_token) simp_all
  ultimately show ?thesis
    by (simp add: sscanf_s_s_def and_then_def)
qed

section \<open>Setting one relay: \<open>POST /api/relay/<n>\<close>\<close>

lemma post_relay_route:
  assumes line: "sscanf_s_s (c_str request) 16 128 = Inr (''POST'', uri)"
    and uri: "take 11 uri = ''/api/relay/''"
    and blank: "strstr (c_str request) (CRLF @ CRLF) = Some found"
  shows "process_http_request page request w =
           and_then (set_relay (word_of_int (of_char (char_at uri 11) - of_char (CHR ''0'')))
                       (if sublist state_1 (drop 4 found) \<or> sublist state_sp_1 (drop 4 found) then 1 else 0) w)
             (\<lambda>w'. Inr (send_http_response ''200 OK'' ''application/json'' success_true w'))"
proof -
  have ne: "''POST'' \<noteq> ''GET''" by simp
  have pre: "take 11 ''/api/relay/'' = ''/api/relay/''" by simp
  have st: "word_of_int (if strstr (drop 4 found) state_1 \<noteq> None \<or> strstr (drop 4 found) state_sp_1 \<noteq> None then 1
                 else if strstr (drop 4 found) state_0 \<noteq> None \<or> strstr (drop 4 found) state_sp_0 \<noteq> None then 0
                 else 0)
          = (if sublist state_1 (drop 4 found) \<or> sublist state_sp_1 (drop 4 found) then 1 else 0 :: 8 word)"
    unfolding strstr_sublist by simp
  show ?thesis
    unfolding process_http_request_def line
    apply (subst and_then_def)
    unfolding sum.case prod.case if_not_P [OF ne] if_True strncmp_eq_def uri pre Let_def blank option.case st
    by (simp only: refl if_True)
qed

lemma post_relay_effect:
  assumes store: "length (g_relay_states w) = RELAY_COUNT"
    and chan: "1 \<le> n" "n \<le> 8"
    and line: "sscanf_s_s (c_str request) 16 128 = Inr (''POST'', uri)"
    and uri: "take 11 uri = ''/api/relay/''" "char_at uri 11 = digit_char n"
    and blank: "strstr (c_str request) (CRLF @ CRLF) = Some found"
  shows "process_http_request page request w =
           Inr (send_http_response ''200 OK'' ''application/json'' success_true
                 (w\<lparr>gpio := gpio w @ [Gpio_put (relay_pins ! (n - 1))
                          (sublist state_1 (drop 4 found) \<or> sublist state_sp_1 (drop 4 found))],
                    g_relay_states := (g_relay_states w)[n - 1 :=
                          (if sublist state_1 (drop 4 found) \<or> sublist state_sp_1 (drop 4 found)
                           then 1 else 0)]\<rparr>))"
proof -
  let ?num = "word_of_int (of_char (char_at uri 11) - of_char (CHR ''0'')) :: 8 word"
  have num: "uint ?num = int n"
    using chan by (simp only: uri relay_num_of_digit)
  then have rng: "1 \<le> uint ?num" "uint ?num \<le> 8" and idx: "nat (uint ?num - 1) = n - 1"
    using chan by simp_all
  show ?thesis
    unfolding post_relay_route [OF line uri(1) blank] set_relay_in_range [OF store rng] idx
    by (simp add: and_then_def)
qed


text \<open>
  Claim C1. Let the request line scan to the method \<open>POST\<close> and a target that starts
  with \<open>/api/relay/\<close> followed by the digit of a channel \<open>n\<close> from 1 to 8, and let
  the request hold a blank line, \<open>found\<close> being the text from the first one on, so that
  the body is \<open>drop 4 found\<close>. If the body contains \<open>"state":1\<close> or \<open>"state": 1\<close>,
  processing the request completes and the store is the old one with entry \<open>n - 1\<close>
  (channel \<open>n\<close>) set to 1. If it contains neither of them but \<open>"state":0\<close> or
  \<open>"state": 0\<close>, the store is the old one with that entry set to 0. The other seven
  entries are those of the old store in both cases.
\<close>

theorem post_relay_sets_channel:
  assumes store: "length (g_relay_states w) = RELAY_COUNT"
    and chan: "1 \<le> n" "n \<le> 8"
    and line: "sscanf_s_s (c_str request) 16 128 = Inr (''POST'', uri)"
    and uri: "take 11 uri = ''/api/relay/''" "char_at uri 11 = digit_char n"
    and blank: "strstr (c_str request) (CRLF @ CRLF) = Some found"
  shows "(sublist state_1 (drop 4 found) \<or> sublist state_sp_1 (drop 4 found) \<longrightarrow>
            (\<exists>w'. process_http_request page request w = Inr w'
                \<and> g_relay_states w' = (g_relay_states w)[n - 1 := 1]))
       \<and> (\<not> sublist state_1 (drop 4 found) \<and> \<not> sublist state_sp_1 (drop 4 found)
            \<and> (sublist state_0 (drop 4 found) \<or> sublist state_sp_0 (drop 4 found)) \<longrightarrow>
            (\<exists>w'. process_http_request page request w = Inr w'
                \<and> g_relay_states w' = (g_relay_states w)[n - 1 := 0]))"
  unfolding post_relay_effect [OF store chan line uri blank]
  by (simp add: send_http_response_def)

theorem post_relay_sets_channel_witness:
  \<open>(\<exists>w'. process_http_request ''<html></html>''
            (''POST /api/relay/3 HTTP/1.1'' @ CRLF @ ''Content-Length: 12'' @ CRLF @ CRLF @ ''{"state": 1}'')
            startup = Inr w'
         \<and> g_relay_states w' = [0, 0, 1, 0, 0, 0, 0, 0])
   \<and> (\<exists>w'. process_http_request ''<html></html>''
            (''POST /api/relay/3 HTTP/1.1'' @ CRLF @ ''Content-Length: 11'' @ CRLF @ CRLF @ ''{"state":0}'')
            (startup\<lparr>g_relay_states := [1, 1, 1, 1, 1, 1, 1, 1]\<rparr>) = Inr w'
         \<and> g_relay_states w' = [1, 1, 0, 1, 1, 1, 1, 1])\<close>
proof -
  let ?on = \<open>''POST /api/relay/3 HTTP/1.1'' @ CRLF @ ''Content-Length: 12'' @ CRLF @ CRLF @ ''{"state": 1}''\<close>
  let ?off = \<open>''POST /api/relay/3 HTTP/1.1'' @ CRLF @ ''Content-Length: 11'' @ CRLF @ CRLF @ ''{"state":0}''\<close>
  let ?w = "startup\<lparr>g_relay_states := [1, 1, 1, 1, 1, 1, 1, 1]\<rparr>"
  have store: "length (g_relay_states startup) = RELAY_COUNT" "length (g_relay_states ?w) = RELAY_COUNT"
    by (simp_all add: startup_def RELAY_COUNT_def)
  have chan: "1 \<le> (3::nat)" "(3::nat) \<le> 8"
    by simp_all
  have line: "sscanf_s_s (c_str ?on) 16 128 = Inr (''POST'', ''/api/relay/3'')"
    "sscanf_s_s (c_str ?off) 16 128 = Inr (''POST'', ''/api/relay/3'')"
    by (simp_all add: sscanf_s_s_def scan_s_def c_str_def CRLF_def isspace_def and_then_def)
  have uri: "take 11 ''/api/relay/3'' = ''/api/relay/''" "char_at ''/api/relay/3'' 11 = digit_char 3"
    by (simp_all add: char_at_def digit_char_def)
  have blank: \<open>strstr (c_str ?on) (CRLF @ CRLF) = Some (CRLF @ CRLF @ ''{"state": 1}'')\<close>
    \<open>strstr (c_str ?off) (CRLF @ CRLF) = Some (CRLF @ CRLF @ ''{"state":0}'')\<close>
    by (simp_all add: c_str_def CRLF_def)
  have body: \<open>sublist state_sp_1 (drop 4 (CRLF @ CRLF @ ''{"state": 1}''))\<close>
    \<open>\<not> sublist state_1 (drop 4 (CRLF @ CRLF @ ''{"state":0}''))\<close>
    \<open>\<not> sublist state_sp_1 (drop 4 (CRLF @ CRLF @ ''{"state":0}''))\<close>
    \<open>sublist state_0 (drop 4 (CRLF @ CRLF @ ''{"state":0}''))\<close>
    by (simp_all add: strstr_sublist [symmetric] CRLF_def state_1_def state_sp_1_def state_0_def)
  have on: "\<exists>w'. process_http_request ''<html></html>'' ?on startup = Inr w'
      \<and> g_relay_states w' = (g_relay_states startup)[3 - 1 := 1]"
    using post_relay_sets_channel [OF store(1) chan line(1) uri blank(1), of \<open>''<html></html>''\<close>] body(1)
    by blast
  have off: "\<exists>w'. process_http_request ''<html></html>'' ?off ?w = Inr w'
      \<and> g_relay_states w' = (g_relay_states ?w)[3 - 1 := 0]"
    using post_relay_sets_channel [OF store(2) chan line(2) uri blank(2), of \<open>''<html></html>''\<close>] body(2-4)
    by blast
  have "(g_relay_states startup)[3 - 1 := 1] = [0, 0, 1, 0, 0, 0, 0, 0]"
    "(g_relay_states ?w)[3 - 1 := 0] = [1, 1, 0, 1, 1, 1, 1, 1]"
    by (simp_all add: startup_def RELAY_COUNT_def eval_nat_numeral)
  with on off show ?thesis
    by (simp only:)
qed

lemma post_relay_route_none:
  assumes line: "sscanf_s_s (c_str request) 16 128 = Inr (''POST'', uri)"
    and uri: "take 11 uri = ''/api/relay/''"
    and blank: "strstr (c_str request) (CRLF @ CRLF) = None"
  shows "process_http_request page request w = Inr w"
proof -
  have ne: "''POST'' \<noteq> ''GET''" by simp
  have pre: "take 11 ''/api/relay/'' = ''/api/relay/''" by simp
  show ?thesis
    unfolding process_http_request_def line
    apply (subst and_then_def)
    unfolding sum.case prod.case if_not_P [OF ne] if_True strncmp_eq_def uri pre Let_def blank option.case
    by (simp only: refl if_True)
qed

lemma http_header_success:
  "http_header ''200 OK'' ''application/json'' success_true =
     ''HTTP/1.1 200 OK'' @ CRLF @ ''Content-Type: application/json'' @ CRLF @
     ''Content-Length: 16'' @ CRLF @ ''Connection: close'' @ CRLF @ CRLF"
  by (simp add: http_header_def snprintf_def success_true_def fmt_d_def fmt_u.simps digit_char_def CRLF_def)

lemma http_header_not_found:
  "http_header ''404 Not Found'' ''text/plain'' ''Not Found'' =
     ''HTTP/1.1 404 Not Found'' @ CRLF @ ''Content-Type: text/plain'' @ CRLF @
     ''Content-Length: 9'' @ CRLF @ ''Connection: close'' @ CRLF @ CRLF"
  by (simp add: http_header_def snprintf_def fmt_d_def fmt_u.simps digit_char_def CRLF_def)

text \<open>
  Claim C7. For a channel \<open>n\<close> from 1 to 8 and a request to \<open>POST /api/relay/<n>\<close>
  that holds a blank line, when the body contains none of \<open>"state":1\<close>, \<open>"state": 1\<close>,
  \<open>"state":0\<close> and \<open>"state": 0\<close>, processing completes, entry \<open>n - 1\<close> of the store
  (channel \<open>n\<close>) is set to 0, and the 200 response with the body \<open>{"success":true}\<close>
  is sent: its header, then its body.
\<close>

theorem post_relay_defaults_off:
  assumes store: "length (g_relay_states w) = RELAY_COUNT"
    and chan: "1 \<le> n" "n \<le> 8"
    and line: "sscanf_s_s (c_str request) 16 128 = Inr (''POST'', uri)"
    and uri: "take 11 uri = ''/api/relay/''" "char_at uri 11 = digit_char n"
    and blank: "strstr (c_str request) (CRLF @ CRLF) = Some found"
    and none: "\<not> sublist state_1 (drop 4 found)" "\<not> sublist state_sp_1 (drop 4 found)"
      "\<not> sublist state_0 (drop 4 found)" "\<not> sublist state_sp_0 (drop 4 found)"
  shows "\<exists>w'. process_http_request page request w = Inr w'
           \<and> g_relay_states w' = (g_relay_states w)[n - 1 := 0]
           \<and> sent w' = sent w @ [http_header ''200 OK'' ''application/json'' success_true, success_true]"
  unfolding post_relay_effect [OF store chan line uri blank]
  by (simp add: send_http_response_def none)

text \<open>
  Claim C5. When the character after \<open>/api/relay/\<close> is none of the digits 1 to 8
  (the digits 0 and 9, any other character, or the end of the target) and the request
  holds a blank line, processing completes, the store and the GPIO calls are as before,
  and the 200 response with the body \<open>{"success":true}\<close> is sent all the same.
\<close>

theorem post_relay_bad_channel:
  assumes line: "sscanf_s_s (c_str request) 16 128 = Inr (''POST'', uri)"
    and uri: "take 11 uri = ''/api/relay/''" "char_at uri 11 \<notin> set ''12345678''"
    and blank: "strstr (c_str request) (CRLF @ CRLF) = Some found"
  shows "\<exists>w'. process_http_request page request w = Inr w'
           \<and> g_relay_states w' = g_relay_states w \<and> gpio w' = gpio w
           \<and> sent w' = sent w @ [http_header ''200 OK'' ''application/json'' success_true, success_true]"
  unfolding post_relay_route [OF line uri(1) blank]
    set_relay_out_of_range [OF relay_num_not_digit [OF uri(2)]]
  by (simp add: and_then_def send_http_response_def)

text \<open>
  Claim C6. When the bytes of a \<open>POST /api/relay/...\<close> request hold no
  \<open>CR LF CR LF\<close>, processing returns the state it was given: no entry of the store
  changes, no GPIO call is made and nothing is sent.
\<close>

theorem post_relay_no_blank_line:
  assumes line: "sscanf_s_s (c_str request) 16 128 = Inr (''POST'', uri)"
    and uri: "take 11 uri = ''/api/relay/''"
    and none: "\<not> sublist (CRLF @ CRLF) request"
  shows "process_http_request page request w = Inr w"
proof -
  from none have "\<not> sublist (CRLF @ CRLF) (c_str request)"
    using sublist_c_str by blast
  then have "strstr (c_str request) (CRLF @ CRLF) = None"
    by (simp add: strstr_None_iff)
  with line uri show ?thesis
    by (rule post_relay_route_none)
qed

text \<open>
  Claim C9. For a store of eight entries and any \<open>POST /api/relay/...\<close> request,
  processing the request completes, processing the same request again in the resulting
  state completes too, and the store after the second run is the store after the first.
\<close>

theorem post_relay_idempotent:
  assumes store: "length (g_relay_states w) = RELAY_COUNT"
    and line: "sscanf_s_s (c_str request) 16 128 = Inr (''POST'', uri)"
    and uri: "take 11 uri = ''/api/relay/''"
  shows "\<exists>w1 w2. process_http_request page request w = Inr w1
           \<and> process_http_request page request w1 = Inr w2
           \<and> g_relay_states w2 = g_relay_states w1"
proof (cases "strstr (c_str request) (CRLF @ CRLF)")
  case None
  with line uri have "process_http_request page request w = Inr w"
    by (rule post_relay_route_none)
  then show ?thesis by simp
next
  case (Some found)
  let ?num = "word_of_int (of_char (char_at uri 11) - of_char (CHR ''0'')) :: 8 word"
  let ?st = "if sublist state_1 (drop 4 found) \<or> sublist state_sp_1 (drop 4 found) then 1 else 0 :: 8 word"
  note route = post_relay_route [OF line uri Some]
  show ?thesis
  proof (cases "1 \<le> uint ?num \<and> uint ?num \<le> 8")
    case True
    then have rng: "1 \<le> uint ?num" "uint ?num \<le> 8" by simp_all
    let ?w1 = "send_http_response ''200 OK'' ''application/json'' success_true
                 (w\<lparr>gpio := gpio w @ [Gpio_put (relay_pins ! nat (uint ?num - 1)) (?st \<noteq> 0)],
                    g_relay_states := (g_relay_states w)[nat (uint ?num - 1) := (if ?st \<noteq> 0 then 1 else 0)]\<rparr>)"
    have first: "process_http_request page request w = Inr ?w1"
      unfolding route set_relay_in_range [OF store rng] by (simp add: and_then_def)
    have store1: "length (g_relay_states ?w1) = RELAY_COUNT"
      using store by (simp add: send_http_response_def)
    have "\<exists>w2. process_http_request page request ?w1 = Inr w2 \<and> g_relay_states w2 = g_relay_states ?w1"
      unfolding route set_relay_in_range [OF store1 rng]
      by (simp add: and_then_def send_http_response_def)
    with first show ?thesis by blast
  next
    case False
    then have "\<And>v. set_relay ?num ?st v = Inr v"
      by (rule set_relay_out_of_range)
    then show ?thesis
      unfolding route by (simp add: and_then_def send_http_response_def)
  qed
qed


theorem post_relay_defaults_off_witness:
  \<open>\<exists>w'. process_http_request ''<html></html>''
           (''POST /api/relay/5 HTTP/1.1'' @ CRLF @ CRLF @ ''{"state":true}'')
           (startup\<lparr>g_relay_states := [1, 1, 1, 1, 1, 1, 1, 1]\<rparr>) = Inr w'
        \<and> g_relay_states w' = [1, 1, 1, 1, 0, 1, 1, 1]
        \<and> sent w' = [''HTTP/1.1 200 OK'' @ CRLF @ ''Content-Type: application/json'' @ CRLF @
                      ''Content-Length: 16'' @ CRLF @ ''Connection: close'' @ CRLF @ CRLF,
                     ''{"success":true}'']\<close>
proof -
  let ?req = \<open>''POST /api/relay/5 HTTP/1.1'' @ CRLF @ CRLF @ ''{"state":true}''\<close>
  let ?w = "startup\<lparr>g_relay_states := [1, 1, 1, 1, 1, 1, 1, 1]\<rparr>"
  have store: "length (g_relay_states ?w) = RELAY_COUNT"
    by (simp add: RELAY_COUNT_def)
  have chan: "1 \<le> (5::nat)" "(5::nat) \<le> 8"
    by simp_all
  have line: "sscanf_s_s (c_str ?req) 16 128 = Inr (''POST'', ''/api/relay/5'')"
    by (simp add: sscanf_s_s_def scan_s_def c_str_def CRLF_def isspace_def and_then_def)
  have uri: "take 11 ''/api/relay/5'' = ''/api/relay/''" "char_at ''/api/relay/5'' 11 = digit_char 5"
    by (simp_all add: char_at_def digit_char_def)
  have blank: \<open>strstr (c_str ?req) (CRLF @ CRLF) = Some (CRLF @ CRLF @ ''{"state":true}'')\<close>
    by (simp add: c_str_def CRLF_def)
  have none: \<open>\<not> sublist state_1 (drop 4 (CRLF @ CRLF @ ''{"state":true}''))\<close>
    \<open>\<not> sublist state_sp_1 (drop 4 (CRLF @ CRLF @ ''{"state":true}''))\<close>
    \<open>\<not> sublist state_0 (drop 4 (CRLF @ CRLF @ ''{"state":true}''))\<close>
    \<open>\<not> sublist state_sp_0 (drop 4 (CRLF @ CRLF @ ''{"state":true}''))\<close>
    by (simp_all add: strstr_sublist [symmetric] CRLF_def state_1_def state_sp_1_def state_0_def state_sp_0_def)
  have upd: "(g_relay_states ?w)[5 - 1 := 0] = [1, 1, 1, 1, 0, 1, 1, 1]"
    by (simp add: eval_nat_numeral)
  have snt: \<open>sent ?w @ [http_header ''200 OK'' ''application/json'' success_true, success_true]
      = [''HTTP/1.1 200 OK'' @ CRLF @ ''Content-Type: application/json'' @ CRLF @
           ''Content-Length: 16'' @ CRLF @ ''Connection: close'' @ CRLF @ CRLF,
         ''{"success":true}'']\<close>
    unfolding http_header_success by (simp add: startup_def success_true_def)
  from post_relay_defaults_off [OF store chan line uri blank none, of \<open>''<html></html>''\<close>]
  show ?thesis
    unfolding upd snt .
qed

theorem post_relay_bad_channel_witness:
  \<open>(\<exists>w'. process_http_request ''<html></html>''
           (''POST /api/relay/9 HTTP/1.1'' @ CRLF @ CRLF @ ''{"state":1}'') startup = Inr w'
        \<and> g_relay_states w' = [0, 0, 0, 0, 0, 0, 0, 0] \<and> gpio w' = []
        \<and> sent w' = [''HTTP/1.1 200 OK'' @ CRLF @ ''Content-Type: application/json'' @ CRLF @
                      ''Content-Length: 16'' @ CRLF @ ''Connection: close'' @ CRLF @ CRLF,
                     ''{"success":true}''])
   \<and> (\<exists>w'. process_http_request ''<html></html>''
           (''POST /api/relay/0 HTTP/1.1'' @ CRLF @ CRLF @ ''{"state":1}'') startup = Inr w'
        \<and> g_relay_states w' = [0, 0, 0, 0, 0, 0, 0, 0] \<and> gpio w' = []
        \<and> sent w' = [''HTTP/1.1 200 OK'' @ CRLF @ ''Content-Type: application/json'' @ CRLF @
                      ''Content-Length: 16'' @ CRLF @ ''Connection: close'' @ CRLF @ CRLF,
                     ''{"success":true}''])\<close>
proof -
  let ?nine = \<open>''POST /api/relay/9 HTTP/1.1'' @ CRLF @ CRLF @ ''{"state":1}''\<close>
  let ?zero = \<open>''POST /api/relay/0 HTTP/1.1'' @ CRLF @ CRLF @ ''{"state":1}''\<close>
  have line: "sscanf_s_s (c_str ?nine) 16 128 = Inr (''POST'', ''/api/relay/9'')"
    "sscanf_s_s (c_str ?zero) 16 128 = Inr (''POST'', ''/api/relay/0'')"
    by (simp_all add: sscanf_s_s_def scan_s_def c_str_def CRLF_def isspace_def and_then_def)
  have uri: "take 11 ''/api/relay/9'' = ''/api/relay/''" "char_at ''/api/relay/9'' 11 \<notin> set ''12345678''"
    "take 11 ''/api/relay/0'' = ''/api/relay/''" "char_at ''/api/relay/0'' 11 \<notin> set ''12345678''"
    by (simp_all add: char_at_def)
  have blank: \<open>strstr (c_str ?nine) (CRLF @ CRLF) = Some (CRLF @ CRLF @ ''{"state":1}'')\<close>
    \<open>strstr (c_str ?zero) (CRLF @ CRLF) = Some (CRLF @ CRLF @ ''{"state":1}'')\<close>
    by (simp_all add: c_str_def CRLF_def)
  have st: "g_relay_states startup = [0, 0, 0, 0, 0, 0, 0, 0]" "gpio startup = []"
    by (simp_all add: startup_def RELAY_COUNT_def eval_nat_numeral)
  have snt: \<open>sent startup @ [http_header ''200 OK'' ''application/json'' success_true, success_true]
      = [''HTTP/1.1 200 OK'' @ CRLF @ ''Content-Type: application/json'' @ CRLF @
           ''Content-Length: 16'' @ CRLF @ ''Connection: close'' @ CRLF @ CRLF,
         ''{"success":true}'']\<close>
    unfolding http_header_success by (simp add: startup_def success_true_def)
  from post_relay_bad_channel [OF line(1) uri(1,2) blank(1), of \<open>''<html></html>''\<close> startup]
    post_relay_bad_channel [OF line(2) uri(3,4) blank(2), of \<open>''<html></html>''\<close> startup]
  show ?thesis
    unfolding st snt by (rule conjI)
qed

theorem post_relay_no_blank_line_witness:
  \<open>process_http_request ''<html></html>''
     (''POST /api/relay/3 HTTP/1.1'' @ CRLF @ ''{"state":1}'') startup = Inr startup\<close>
proof -
  let ?req = \<open>''POST /api/relay/3 HTTP/1.1'' @ CRLF @ ''{"state":1}''\<close>
  have line: "sscanf_s_s (c_str ?req) 16 128 = Inr (''POST'', ''/api/relay/3'')"
    by (simp add: sscanf_s_s_def scan_s_def c_str_def CRLF_def isspace_def and_then_def)
  have uri: "take 11 ''/api/relay/3'' = ''/api/relay/''"
    by simp
  have none: "\<not> sublist (CRLF @ CRLF) ?req"
    by (simp add: strstr_None_iff [symmetric] CRLF_def)
  from line uri none show ?thesis
    by (rule post_relay_no_blank_line)
qed

theorem post_relay_idempotent_witness:
  \<open>\<exists>w1 w2. process_http_request ''<html></html>''
             (''POST /api/relay/3 HTTP/1.1'' @ CRLF @ CRLF @ ''{"state":1}'') startup = Inr w1
        \<and> process_http_request ''<html></html>''
             (''POST /api/relay/3 HTTP/1.1'' @ CRLF @ CRLF @ ''{"state":1}'') w1 = Inr w2
        \<and> g_relay_states w2 = g_relay_states w1\<close>
proof -
  let ?req = \<open>''POST /api/relay/3 HTTP/1.1'' @ CRLF @ CRLF @ ''{"state":1}''\<close>
  have store: "length (g_relay_states startup) = RELAY_COUNT"
    by (simp add: startup_def)
  have line: "sscanf_s_s (c_str ?req) 16 128 = Inr (''POST'', ''/api/relay/3'')"
    by (simp add: sscanf_s_s_def scan_s_def c_str_def CRLF_def isspace_def and_then_def)
  have uri: "take 11 ''/api/relay/3'' = ''/api/relay/''"
    by simp
  from store line uri show ?thesis
    by (rule post_relay_idempotent)
qed

section \<open>Reading the store and setting every relay\<close>

lemma get_relays_json_text:
  assumes store: "length (g_relay_states w) = RELAY_COUNT"
  shows "get_relays_json 512 w =
           Inr (''{'' @ relay_entry ''relay_1'' (g_relay_states w ! 0) @ '','' @
                        relay_entry ''relay_2'' (g_relay_states w ! 1) @ '','' @
                        relay_entry ''relay_3'' (g_relay_states w ! 2) @ '','' @
                        relay_entry ''relay_4'' (g_relay_states w ! 3) @ '','' @
                        relay_entry ''relay_5'' (g_relay_states w ! 4) @ '','' @
                        relay_entry ''relay_6'' (g_relay_states w ! 5) @ '','' @
                        relay_entry ''relay_7'' (g_relay_states w ! 6) @ '','' @
                        relay_entry ''relay_8'' (g_relay_states w ! 7) @ ''}'')"
proof -
  have len: "length (relay_entry key v) \<le> length key + 16" for key v
    using fmt_d_u8_length [of v] by (simp add: relay_entry_def)
  have reads: "array_get (g_relay_states w) 0 = Inr (g_relay_states w ! 0)"
    "array_get (g_relay_states w) 1 = Inr (g_relay_states w ! 1)"
    "array_get (g_relay_states w) 2 = Inr (g_relay_states w ! 2)"
    "array_get (g_relay_states w) 3 = Inr (g_relay_states w ! 3)"
    "array_get (g_relay_states w) 4 = Inr (g_relay_states w ! 4)"
    "array_get (g_relay_states w) 5 = Inr (g_relay_states w ! 5)"
    "array_get (g_relay_states w) 6 = Inr (g_relay_states w ! 6)"
    "array_get (g_relay_states w) 7 = Inr (g_relay_states w ! 7)"
    using store by (simp_all add: array_get_def RELAY_COUNT_def)
  show ?thesis
    unfolding get_relays_json_def reads
    using len [of "''relay_1''" "g_relay_states w ! 0"] len [of "''relay_2''" "g_relay_states w ! 1"]
      len [of "''relay_3''" "g_relay_states w ! 2"] len [of "''relay_4''" "g_relay_states w ! 3"]
      len [of "''relay_5''" "g_relay_states w ! 4"] len [of "''relay_6''" "g_relay_states w ! 5"]
      len [of "''relay_7''" "g_relay_states w ! 6"] len [of "''relay_8''" "g_relay_states w ! 7"]
    by (simp add: and_then_def snprintf_def)
qed


lemma get_relays_route:
  assumes store: "length (g_relay_states w) = RELAY_COUNT"
    and line: "sscanf_s_s (c_str request) 16 128 = Inr (''GET'', ''/api/relays'')"
  shows \<open>\<exists>body. process_http_request page request w =
             Inr (w\<lparr>sent := sent w @ [http_header ''200 OK'' ''application/json'' body, body]\<rparr>)
         \<and> body =
           ''{"relay_1":{"state":'' @ fmt_d (uint (g_relay_states w ! 0)) @
           ''},"relay_2":{"state":'' @ fmt_d (uint (g_relay_states w ! 1)) @
           ''},"relay_3":{"state":'' @ fmt_d (uint (g_relay_states w ! 2)) @
           ''},"relay_4":{"state":'' @ fmt_d (uint (g_relay_states w ! 3)) @
           ''},"relay_5":{"state":'' @ fmt_d (uint (g_relay_states w ! 4)) @
           ''},"relay_6":{"state":'' @ fmt_d (uint (g_relay_states w ! 5)) @
           ''},"relay_7":{"state":'' @ fmt_d (uint (g_relay_states w ! 6)) @
           ''},"relay_8":{"state":'' @ fmt_d (uint (g_relay_states w ! 7)) @ ''}}''\<close>
  unfolding process_http_request_def line get_relays_json_text [OF store]
  by (simp add: and_then_def send_http_response_def relay_entry_def)

lemma fmt_d_bit: "fmt_d 0 = ''0''" "fmt_d 1 = ''1''"
  by (simp_all add: fmt_d_def fmt_u.simps digit_char_def)

lemma post_all_on_route:
  assumes store: "length (g_relay_states w) = RELAY_COUNT"
    and line: "sscanf_s_s (c_str request) 16 128 = Inr (''POST'', ''/api/relays/all/on'')"
  shows "process_http_request page request w =
           Inr (send_http_response ''200 OK'' ''application/json'' success_true
                  (w\<lparr>gpio := gpio w @ map (\<lambda>pin. Gpio_put pin True) relay_pins,
                     g_relay_states := replicate RELAY_COUNT 1\<rparr>))"
  unfolding process_http_request_def line set_all_loop_on [OF store]
  by (simp add: and_then_def strncmp_eq_def)

lemma post_all_off_route:
  assumes store: "length (g_relay_states w) = RELAY_COUNT"
    and line: "sscanf_s_s (c_str request) 16 128 = Inr (''POST'', ''/api/relays/all/off'')"
  shows "process_http_request page request w =
           Inr (send_http_response ''200 OK'' ''application/json'' success_true
                  (w\<lparr>gpio := gpio w @ map (\<lambda>pin. Gpio_put pin False) relay_pins,
                     g_relay_states := replicate RELAY_COUNT 0\<rparr>))"
  unfolding process_http_request_def line set_all_loop_off [OF store]
  by (simp add: and_then_def strncmp_eq_def)

lemma other_method_route:
  assumes line: "sscanf_s_s (c_str request) 16 128 = Inr (method, uri)"
    and other: "method \<noteq> ''GET''" "method \<noteq> ''POST''"
  shows "process_http_request page request w = Inr w"
  unfolding process_http_request_def line
  by (simp add: and_then_def other)

text \<open>
  Claim C2. For every store of eight entries, whatever their values, a request whose
  line scans to \<open>GET /api/relays\<close> is processed to completion; the store and the GPIO
  calls are unchanged; and what is sent is the 200 \<open>application/json\<close> header followed
  by the body, the object with the keys \<open>relay_1\<close> to \<open>relay_8\<close> in this order, the
  value of key \<open>relay_k\<close> being \<open>{"state":v}\<close> with \<open>v\<close> entry \<open>k - 1\<close> of the store
  in decimal. The result depends on the state only, not on how it was reached.
\<close>

theorem get_relays_reports_store:
  assumes store: "length (g_relay_states w) = RELAY_COUNT"
    and line: "sscanf_s_s (c_str request) 16 128 = Inr (''GET'', ''/api/relays'')"
  shows \<open>\<exists>w' body. process_http_request page request w = Inr w'
         \<and> g_relay_states w' = g_relay_states w \<and> gpio w' = gpio w
         \<and> sent w' = sent w @ [http_header ''200 OK'' ''application/json'' body, body]
         \<and> body =
           ''{"relay_1":{"state":'' @ fmt_d (uint (g_relay_states w ! 0)) @
           ''},"relay_2":{"state":'' @ fmt_d (uint (g_relay_states w ! 1)) @
           ''},"relay_3":{"state":'' @ fmt_d (uint (g_relay_states w ! 2)) @
           ''},"relay_4":{"state":'' @ fmt_d (uint (g_relay_states w ! 3)) @
           ''},"relay_5":{"state":'' @ fmt_d (uint (g_relay_states w ! 4)) @
           ''},"relay_6":{"state":'' @ fmt_d (uint (g_relay_states w ! 5)) @
           ''},"relay_7":{"state":'' @ fmt_d (uint (g_relay_states w ! 6)) @
           ''},"relay_8":{"state":'' @ fmt_d (uint (g_relay_states w ! 7)) @ ''}}''\<close>
proof -
  from get_relays_route [OF store line, of page] obtain body
    where run: "process_http_request page request w =
                  Inr (w\<lparr>sent := sent w @ [http_header ''200 OK'' ''application/json'' body, body]\<rparr>)"
      and body: \<open>body =
           ''{"relay_1":{"state":'' @ fmt_d (uint (g_relay_states w ! 0)) @
           ''},"relay_2":{"state":'' @ fmt_d (uint (g_relay_states w ! 1)) @
           ''},"relay_3":{"state":'' @ fmt_d (uint (g_relay_states w ! 2)) @
           ''},"relay_4":{"state":'' @ fmt_d (uint (g_relay_states w ! 3)) @
           ''},"relay_5":{"state":'' @ fmt_d (uint (g_relay_states w ! 4)) @
           ''},"relay_6":{"state":'' @ fmt_d (uint (g_relay_states w ! 5)) @
           ''},"relay_7":{"state":'' @ fmt_d (uint (g_relay_states w ! 6)) @
           ''},"relay_8":{"state":'' @ fmt_d (uint (g_relay_states w ! 7)) @ ''}}''\<close>
    by blast
  let ?w' = "w\<lparr>sent := sent w @ [http_header ''200 OK'' ''application/json'' body, body]\<rparr>"
  have "g_relay_states ?w' = g_relay_states w" "gpio ?w' = gpio w"
    "sent ?w' = sent w @ [http_header ''200 OK'' ''application/json'' body, body]"
    by simp_all
  with run body show ?thesis
    by blast
qed

lemma http_header_177:
  "length body = 177 \<Longrightarrow>
   http_header ''200 OK'' ''application/json'' body =
     ''HTTP/1.1 200 OK'' @ CRLF @ ''Content-Type: application/json'' @ CRLF @
     ''Content-Length: 177'' @ CRLF @ ''Connection: close'' @ CRLF @ CRLF"
  by (simp add: http_header_def snprintf_def fmt_d_def fmt_u.simps digit_char_def CRLF_def)

theorem get_relays_reports_store_witness:
  \<open>\<exists>w'. process_http_request ''<html></html>'' (''GET /api/relays HTTP/1.1'' @ CRLF @ CRLF)
           (startup\<lparr>g_relay_states := [0, 1, 0, 0, 1, 0, 0, 1]\<rparr>) = Inr w'
        \<and> g_relay_states w' = [0, 1, 0, 0, 1, 0, 0, 1]
        \<and> sent w' = [''HTTP/1.1 200 OK'' @ CRLF @ ''Content-Type: application/json'' @ CRLF @
                      ''Content-Length: 177'' @ CRLF @ ''Connection: close'' @ CRLF @ CRLF,
                     ''{"relay_1":{"state":0},"relay_2":{"state":1},"relay_3":{"state":0},"relay_4":{"state":0},"relay_5":{"state":1},"relay_6":{"state":0},"relay_7":{"state":0},"relay_8":{"state":1}}'']\<close>
proof -
  let ?req = "''GET /api/relays HTTP/1.1'' @ CRLF @ CRLF"
  let ?w = "startup\<lparr>g_relay_states := [0, 1, 0, 0, 1, 0, 0, 1]\<rparr>"
  have store: "length (g_relay_states ?w) = RELAY_COUNT"
    by (simp add: RELAY_COUNT_def)
  have line: "sscanf_s_s (c_str ?req) 16 128 = Inr (''GET'', ''/api/relays'')"
    by (simp add: sscanf_s_s_def scan_s_def c_str_def CRLF_def isspace_def and_then_def)
  from get_relays_reports_store [OF store line, of \<open>''<html></html>''\<close>] obtain w' body
    where run: "process_http_request ''<html></html>'' ?req ?w = Inr w'"
      and same: "g_relay_states w' = g_relay_states ?w"
      and snt: "sent w' = sent ?w @ [http_header ''200 OK'' ''application/json'' body, body]"
      and body: \<open>body =
           ''{"relay_1":{"state":'' @ fmt_d (uint (g_relay_states ?w ! 0)) @
           ''},"relay_2":{"state":'' @ fmt_d (uint (g_relay_states ?w ! 1)) @
           ''},"relay_3":{"state":'' @ fmt_d (uint (g_relay_states ?w ! 2)) @
           ''},"relay_4":{"state":'' @ fmt_d (uint (g_relay_states ?w ! 3)) @
           ''},"relay_5":{"state":'' @ fmt_d (uint (g_relay_states ?w ! 4)) @
           ''},"relay_6":{"state":'' @ fmt_d (uint (g_relay_states ?w ! 5)) @
           ''},"relay_7":{"state":'' @ fmt_d (uint (g_relay_states ?w ! 6)) @
           ''},"relay_8":{"state":'' @ fmt_d (uint (g_relay_states ?w ! 7)) @ ''}}''\<close>
    by blast
  from body have lit: \<open>body = ''{"relay_1":{"state":0},"relay_2":{"state":1},"relay_3":{"state":0},"relay_4":{"state":0},"relay_5":{"state":1},"relay_6":{"state":0},"relay_7":{"state":0},"relay_8":{"state":1}}''\<close>
    by (simp add: fmt_d_bit)
  then have "length body = 177"
    by simp
  then have hdr: "http_header ''200 OK'' ''application/json'' body =
     ''HTTP/1.1 200 OK'' @ CRLF @ ''Content-Type: application/json'' @ CRLF @
     ''Content-Length: 177'' @ CRLF @ ''Connection: close'' @ CRLF @ CRLF"
    by (rule http_header_177)
  have "sent ?w = []"
    by (simp add: startup_def)
  with run same snt hdr lit show ?thesis
    by simp
qed

lemma get_after_all:
  assumes states: "g_relay_states w' = replicate RELAY_COUNT v" and bit: "v = 0 \<or> v = 1"
    and line: "sscanf_s_s (c_str get) 16 128 = Inr (''GET'', ''/api/relays'')"
  shows \<open>\<exists>w''. process_http_request page get w' = Inr w''
          \<and> (let body =
                 ''{"relay_1":{"state":'' @ fmt_d (uint v) @ ''},"relay_2":{"state":'' @ fmt_d (uint v) @
                 ''},"relay_3":{"state":'' @ fmt_d (uint v) @ ''},"relay_4":{"state":'' @ fmt_d (uint v) @
                 ''},"relay_5":{"state":'' @ fmt_d (uint v) @ ''},"relay_6":{"state":'' @ fmt_d (uint v) @
                 ''},"relay_7":{"state":'' @ fmt_d (uint v) @ ''},"relay_8":{"state":'' @ fmt_d (uint v) @ ''}}''
               in sent w'' = sent w' @ [http_header ''200 OK'' ''application/json'' body, body])\<close>
proof -
  have store: "length (g_relay_states w') = RELAY_COUNT"
    by (simp add: states)
  have nth: "g_relay_states w' ! 0 = v" "g_relay_states w' ! 1 = v" "g_relay_states w' ! 2 = v"
    "g_relay_states w' ! 3 = v" "g_relay_states w' ! 4 = v" "g_relay_states w' ! 5 = v"
    "g_relay_states w' ! 6 = v" "g_relay_states w' ! 7 = v"
    by (simp_all add: states RELAY_COUNT_def)
  from get_relays_route [OF store line, of page] show ?thesis
    unfolding nth Let_def by auto
qed

text \<open>
  Claim C3. For every store of eight entries, \<open>POST /api/relays/all/on\<close> is processed to
  completion, every entry of the store is 1 afterwards, the 200 response with the body
  \<open>{"success":true}\<close> is sent, and any \<open>GET /api/relays\<close> processed next sends the
  body in which all eight entries are \<open>{"state":1}\<close>. The same holds for
  \<open>POST /api/relays/all/off\<close> with 0 in place of 1.
\<close>

theorem all_on_off_set_every_channel:
  assumes store: "length (g_relay_states w) = RELAY_COUNT"
  shows \<open>(sscanf_s_s (c_str request) 16 128 = Inr (''POST'', ''/api/relays/all/on'') \<longrightarrow>
           (\<exists>w'. process_http_request page request w = Inr w'
              \<and> g_relay_states w' = replicate RELAY_COUNT 1
              \<and> sent w' = sent w @ [http_header ''200 OK'' ''application/json'' success_true, success_true]
              \<and> (\<forall>get. sscanf_s_s (c_str get) 16 128 = Inr (''GET'', ''/api/relays'') \<longrightarrow>
                   (\<exists>w''. process_http_request page get w' = Inr w''
                      \<and> (let body = ''{"relay_1":{"state":1},"relay_2":{"state":1},"relay_3":{"state":1},"relay_4":{"state":1},"relay_5":{"state":1},"relay_6":{"state":1},"relay_7":{"state":1},"relay_8":{"state":1}}''
                          in sent w'' = sent w' @ [http_header ''200 OK'' ''application/json'' body, body])))))
       \<and> (sscanf_s_s (c_str request) 16 128 = Inr (''POST'', ''/api/relays/all/off'') \<longrightarrow>
           (\<exists>w'. process_http_request page request w = Inr w'
              \<and> g_relay_states w' = replicate RELAY_COUNT 0
              \<and> sent w' = sent w @ [http_header ''200 OK'' ''application/json'' success_true, success_true]
              \<and> (\<forall>get. sscanf_s_s (c_str get) 16 128 = Inr (''GET'', ''/api/relays'') \<longrightarrow>
                   (\<exists>w''. process_http_request page get w' = Inr w''
                      \<and> (let body = ''{"relay_1":{"state":0},"relay_2":{"state":0},"relay_3":{"state":0},"relay_4":{"state":0},"relay_5":{"state":0},"relay_6":{"state":0},"relay_7":{"state":0},"relay_8":{"state":0}}''
                          in sent w'' = sent w' @ [http_header ''200 OK'' ''application/json'' body, body])))))\<close>
proof (intro conjI impI)
  assume line: "sscanf_s_s (c_str request) 16 128 = Inr (''POST'', ''/api/relays/all/on'')"
  let ?w' = "send_http_response ''200 OK'' ''application/json'' success_true
               (w\<lparr>gpio := gpio w @ map (\<lambda>pin. Gpio_put pin True) relay_pins,
                  g_relay_states := replicate RELAY_COUNT 1\<rparr>)"
  have run: "process_http_request page request w = Inr ?w'"
    using store line by (rule post_all_on_route)
  have states: "g_relay_states ?w' = replicate RELAY_COUNT 1"
    and snt: "sent ?w' = sent w @ [http_header ''200 OK'' ''application/json'' success_true, success_true]"
    by (simp_all add: send_http_response_def)
  have \<open>\<exists>w''. process_http_request page get ?w' = Inr w''
          \<and> (let body = ''{"relay_1":{"state":1},"relay_2":{"state":1},"relay_3":{"state":1},"relay_4":{"state":1},"relay_5":{"state":1},"relay_6":{"state":1},"relay_7":{"state":1},"relay_8":{"state":1}}''
               in sent w'' = sent ?w' @ [http_header ''200 OK'' ''application/json'' body, body])\<close>
    if "sscanf_s_s (c_str get) 16 128 = Inr (''GET'', ''/api/relays'')" for get
    using get_after_all [OF states _ that, of page] by (simp add: fmt_d_bit)
  with run states snt
  show \<open>\<exists>w'. process_http_request page request w = Inr w'
              \<and> g_relay_states w' = replicate RELAY_COUNT 1
              \<and> sent w' = sent w @ [http_header ''200 OK'' ''application/json'' success_true, success_true]
              \<and> (\<forall>get. sscanf_s_s (c_str get) 16 128 = Inr (''GET'', ''/api/relays'') \<longrightarrow>
                   (\<exists>w''. process_http_request page get w' = Inr w''
                      \<and> (let body = ''{"relay_1":{"state":1},"relay_2":{"state":1},"relay_3":{"state":1},"relay_4":{"state":1},"relay_5":{"state":1},"relay_6":{"state":1},"relay_7":{"state":1},"relay_8":{"state":1}}''
                          in sent w'' = sent w' @ [http_header ''200 OK'' ''application/json'' body, body])))\<close>
    by blast
next
  assume line: "sscanf_s_s (c_str request) 16 128 = Inr (''POST'', ''/api/relays/all/off'')"
  let ?w' = "send_http_response ''200 OK'' ''application/json'' success_true
               (w\<lparr>gpio := gpio w @ map (\<lambda>pin. Gpio_put pin False) relay_pins,
                  g_relay_states := replicate RELAY_COUNT 0\<rparr>)"
  have run: "process_http_request page request w = Inr ?w'"
    using store line by (rule post_all_off_route)
  have states: "g_relay_states ?w' = replicate RELAY_COUNT 0"
    and snt: "sent ?w' = sent w @ [http_header ''200 OK'' ''application/json'' success_true, success_true]"
    by (simp_all add: send_http_response_def)
  have \<open>\<exists>w''. process_http_request page get ?w' = Inr w''
          \<and> (let body = ''{"relay_1":{"state":0},"relay_2":{"state":0},"relay_3":{"state":0},"relay_4":{"state":0},"relay_5":{"state":0},"relay_6":{"state":0},"relay_7":{"state":0},"relay_8":{"state":0}}''
               in sent w'' = sent ?w' @ [http_header ''200 OK'' ''application/json'' body, body])\<close>
    if "sscanf_s_s (c_str get) 16 128 = Inr (''GET'', ''/api/relays'')" for get
    using get_after_all [OF states _ that, of page] by (simp add: fmt_d_bit)
  with run states snt
  show \<open>\<exists>w'. process_http_request page request w = Inr w'
              \<and> g_relay_states w' = replicate RELAY_COUNT 0
              \<and> sent w' = sent w @ [http_header ''200 OK'' ''application/json'' success_true, success_true]
              \<and> (\<forall>get. sscanf_s_s (c_str get) 16 128 = Inr (''GET'', ''/api/relays'') \<longrightarrow>
                   (\<exists>w''. process_http_request page get w' = Inr w''
                      \<and> (let body = ''{"relay_1":{"state":0},"relay_2":{"state":0},"relay_3":{"state":0},"relay_4":{"state":0},"relay_5":{"state":0},"relay_6":{"state":0},"relay_7":{"state":0},"relay_8":{"state":0}}''
                          in sent w'' = sent w' @ [http_header ''200 OK'' ''application/json'' body, body])))\<close>
    by blast
qed

theorem all_on_off_set_every_channel_witness:
  \<open>(\<exists>w' w''. process_http_request ''<html></html>'' (''POST /api/relays/all/on HTTP/1.1'' @ CRLF @ CRLF)
                startup = Inr w'
       \<and> g_relay_states w' = [1, 1, 1, 1, 1, 1, 1, 1]
       \<and> process_http_request ''<html></html>'' (''GET /api/relays HTTP/1.1'' @ CRLF @ CRLF) w' = Inr w''
       \<and> sent w'' =
            [''HTTP/1.1 200 OK'' @ CRLF @ ''Content-Type: application/json'' @ CRLF @
              ''Content-Length: 16'' @ CRLF @ ''Connection: close'' @ CRLF @ CRLF,
             ''{"success":true}'',
             ''HTTP/1.1 200 OK'' @ CRLF @ ''Content-Type: application/json'' @ CRLF @
              ''Content-Length: 177'' @ CRLF @ ''Connection: close'' @ CRLF @ CRLF,
             ''{"relay_1":{"state":1},"relay_2":{"state":1},"relay_3":{"state":1},"relay_4":{"state":1},"relay_5":{"state":1},"relay_6":{"state":1},"relay_7":{"state":1},"relay_8":{"state":1}}''])
   \<and> (\<exists>w' w''. process_http_request ''<html></html>'' (''POST /api/relays/all/off HTTP/1.1'' @ CRLF @ CRLF)
                (startup\<lparr>g_relay_states := [1, 0, 1, 1, 0, 0, 1, 1]\<rparr>) = Inr w'
       \<and> g_relay_states w' = [0, 0, 0, 0, 0, 0, 0, 0]
       \<and> process_http_request ''<html></html>'' (''GET /api/relays HTTP/1.1'' @ CRLF @ CRLF) w' = Inr w''
       \<and> sent w'' =
            [''HTTP/1.1 200 OK'' @ CRLF @ ''Content-Type: application/json'' @ CRLF @
              ''Content-Length: 16'' @ CRLF @ ''Connection: close'' @ CRLF @ CRLF,
             ''{"success":true}'',
             ''HTTP/1.1 200 OK'' @ CRLF @ ''Content-Type: application/json'' @ CRLF @
              ''Content-Length: 177'' @ CRLF @ ''Connection: close'' @ CRLF @ CRLF,
             ''{"relay_1":{"state":0},"relay_2":{"state":0},"relay_3":{"state":0},"relay_4":{"state":0},"relay_5":{"state":0},"relay_6":{"state":0},"relay_7":{"state":0},"relay_8":{"state":0}}''])\<close>
proof -
  let ?on = "''POST /api/relays/all/on HTTP/1.1'' @ CRLF @ CRLF"
  let ?off = "''POST /api/relays/all/off HTTP/1.1'' @ CRLF @ CRLF"
  let ?get = "''GET /api/relays HTTP/1.1'' @ CRLF @ CRLF"
  let ?w = "startup\<lparr>g_relay_states := [1, 0, 1, 1, 0, 0, 1, 1]\<rparr>"
  have store: "length (g_relay_states startup) = RELAY_COUNT" "length (g_relay_states ?w) = RELAY_COUNT"
    by (simp_all add: startup_def RELAY_COUNT_def)
  have line: "sscanf_s_s (c_str ?on) 16 128 = Inr (''POST'', ''/api/relays/all/on'')"
    "sscanf_s_s (c_str ?off) 16 128 = Inr (''POST'', ''/api/relays/all/off'')"
    "sscanf_s_s (c_str ?get) 16 128 = Inr (''GET'', ''/api/relays'')"
    by (simp_all add: sscanf_s_s_def scan_s_def c_str_def CRLF_def isspace_def and_then_def)
  have rep: "replicate RELAY_COUNT (1 :: 8 word) = [1, 1, 1, 1, 1, 1, 1, 1]"
    "replicate RELAY_COUNT (0 :: 8 word) = [0, 0, 0, 0, 0, 0, 0, 0]"
    by (simp_all add: RELAY_COUNT_def eval_nat_numeral)
  have hdr: \<open>http_header ''200 OK'' ''application/json'' ''{"relay_1":{"state":1},"relay_2":{"state":1},"relay_3":{"state":1},"relay_4":{"state":1},"relay_5":{"state":1},"relay_6":{"state":1},"relay_7":{"state":1},"relay_8":{"state":1}}'' =
      ''HTTP/1.1 200 OK'' @ CRLF @ ''Content-Type: application/json'' @ CRLF @
              ''Content-Length: 177'' @ CRLF @ ''Connection: close'' @ CRLF @ CRLF\<close>
    \<open>http_header ''200 OK'' ''application/json'' ''{"relay_1":{"state":0},"relay_2":{"state":0},"relay_3":{"state":0},"relay_4":{"state":0},"relay_5":{"state":0},"relay_6":{"state":0},"relay_7":{"state":0},"relay_8":{"state":0}}'' =
      ''HTTP/1.1 200 OK'' @ CRLF @ ''Content-Type: application/json'' @ CRLF @
              ''Content-Length: 177'' @ CRLF @ ''Connection: close'' @ CRLF @ CRLF\<close>
    by (rule http_header_177, simp)+
  have snt: "sent startup = []" "sent ?w = []"
    by (simp_all add: startup_def)
  note thm_on = all_on_off_set_every_channel [OF store(1), of ?on \<open>''<html></html>''\<close>, THEN conjunct1, rule_format, OF line(1)]
  note thm_off = all_on_off_set_every_channel [OF store(2), of ?off \<open>''<html></html>''\<close>, THEN conjunct2, rule_format, OF line(2)]
  from thm_on obtain w1 where w1: "process_http_request ''<html></html>'' ?on startup = Inr w1"
    "g_relay_states w1 = replicate RELAY_COUNT 1"
    "sent w1 = sent startup @ [http_header ''200 OK'' ''application/json'' success_true, success_true]"
    \<open>\<exists>w''. process_http_request ''<html></html>'' ?get w1 = Inr w''
       \<and> (let body = ''{"relay_1":{"state":1},"relay_2":{"state":1},"relay_3":{"state":1},"relay_4":{"state":1},"relay_5":{"state":1},"relay_6":{"state":1},"relay_7":{"state":1},"relay_8":{"state":1}}''
            in sent w'' = sent w1 @ [http_header ''200 OK'' ''application/json'' body, body])\<close>
    using line(3) by blast
  from thm_off obtain w2 where w2: "process_http_request ''<html></html>'' ?off ?w = Inr w2"
    "g_relay_states w2 = replicate RELAY_COUNT 0"
    "sent w2 = sent ?w @ [http_header ''200 OK'' ''application/json'' success_true, success_true]"
    \<open>\<exists>w''. process_http_request ''<html></html>'' ?get w2 = Inr w''
       \<and> (let body = ''{"relay_1":{"state":0},"relay_2":{"state":0},"relay_3":{"state":0},"relay_4":{"state":0},"relay_5":{"state":0},"relay_6":{"state":0},"relay_7":{"state":0},"relay_8":{"state":0}}''
            in sent w'' = sent w2 @ [http_header ''200 OK'' ''application/json'' body, body])\<close>
    using line(3) by blast
  from w1 have one: \<open>\<exists>w' w''. process_http_request ''<html></html>'' ?on startup = Inr w'
       \<and> g_relay_states w' = [1, 1, 1, 1, 1, 1, 1, 1]
       \<and> process_http_request ''<html></html>'' ?get w' = Inr w''
       \<and> sent w'' =
            [''HTTP/1.1 200 OK'' @ CRLF @ ''Content-Type: application/json'' @ CRLF @
              ''Content-Length: 16'' @ CRLF @ ''Connection: close'' @ CRLF @ CRLF,
             ''{"success":true}'',
             ''HTTP/1.1 200 OK'' @ CRLF @ ''Content-Type: application/json'' @ CRLF @
              ''Content-Length: 177'' @ CRLF @ ''Connection: close'' @ CRLF @ CRLF,
             ''{"relay_1":{"state":1},"relay_2":{"state":1},"relay_3":{"state":1},"relay_4":{"state":1},"relay_5":{"state":1},"relay_6":{"state":1},"relay_7":{"state":1},"relay_8":{"state":1}}'']\<close>
    unfolding Let_def hdr rep snt success_true_def http_header_success [unfolded success_true_def] by auto
  from w2 have two: \<open>\<exists>w' w''. process_http_request ''<html></html>'' ?off ?w = Inr w'
       \<and> g_relay_states w' = [0, 0, 0, 0, 0, 0, 0, 0]
       \<and> process_http_request ''<html></html>'' ?get w' = Inr w''
       \<and> sent w'' =
            [''HTTP/1.1 200 OK'' @ CRLF @ ''Content-Type: application/json'' @ CRLF @
              ''Content-Length: 16'' @ CRLF @ ''Connection: close'' @ CRLF @ CRLF,
             ''{"success":true}'',
             ''HTTP/1.1 200 OK'' @ CRLF @ ''Content-Type: application/json'' @ CRLF @
              ''Content-Length: 177'' @ CRLF @ ''Connection: close'' @ CRLF @ CRLF,
             ''{"relay_1":{"state":0},"relay_2":{"state":0},"relay_3":{"state":0},"relay_4":{"state":0},"relay_5":{"state":0},"relay_6":{"state":0},"relay_7":{"state":0},"relay_8":{"state":0}}'']\<close>
    unfolding Let_def hdr rep snt success_true_def http_header_success [unfolded success_true_def] by auto
  from one two show ?thesis
    by (rule conjI)
qed

section \<open>Requests that match no route\<close>

lemma unrouted_path_not_found:
  assumes line: "sscanf_s_s (c_str request) 16 128 = Inr (method, uri)"
    and unrouted:
      "method = ''GET'' \<and> uri \<noteq> ''/'' \<and> uri \<noteq> ''/index.html'' \<and> uri \<noteq> ''/api/relays''
       \<or> method = ''POST'' \<and> take 11 uri \<noteq> ''/api/relay/'' \<and> uri \<noteq> ''/api/relays/all/on''
           \<and> uri \<noteq> ''/api/relays/all/off''"
  shows "process_http_request page request w =
           Inr (w\<lparr>sent := sent w @ [http_header ''404 Not Found'' ''text/plain'' ''Not Found'', ''Not Found'']\<rparr>)"
  using unrouted unfolding process_http_request_def line
  by (auto simp: and_then_def strncmp_eq_def send_http_response_def)

text \<open>
  Claim C4. The claim asks for the 404 response for every request outside the five
  routes, methods other than \<open>GET\<close> and \<open>POST\<close> included. For a \<open>GET\<close> or a \<open>POST\<close>
  with a target outside the routes the code sends it, as \<open>unrouted_path_not_found\<close>
  shows; the chain \<open>if GET ... else if POST ...\<close> has no last \<open>else\<close>, though. What
  the code does for any other method: processing returns the state it was given, so no
  relay changes and nothing at all is sent, no 404 either.
\<close>

theorem other_method_gets_no_response:
  assumes line: "sscanf_s_s (c_str request) 16 128 = Inr (method, uri)"
    and other: "method \<noteq> ''GET''" "method \<noteq> ''POST''"
  shows "process_http_request page request w = Inr w"
  using line other by (rule other_method_route)

theorem other_method_gets_no_response_witness:
  "process_http_request ''<html></html>'' (''PUT /foo HTTP/1.1'' @ CRLF @ CRLF) startup = Inr startup
   \<and> sent startup = []"
proof -
  let ?req = "''PUT /foo HTTP/1.1'' @ CRLF @ CRLF"
  have line: "sscanf_s_s (c_str ?req) 16 128 = Inr (''PUT'', ''/foo'')"
    by (simp add: sscanf_s_s_def scan_s_def c_str_def CRLF_def isspace_def and_then_def)
  have other: "''PUT'' \<noteq> ''GET''" "''PUT'' \<noteq> ''POST''"
    by simp_all
  from other_method_gets_no_response [OF line other, of \<open>''<html></html>''\<close> startup]
  show ?thesis
    by (simp add: startup_def)
qed

section \<open>What the substring search matches\<close>

text \<open>
  Claim C8 as stated, at the body of its own example: with channel 3 on, the request
  \<open>POST /api/relay/3\<close> with the body \<open>{"other_state":1}\<close> is not read as ON. The
  strings searched for begin with the quote that opens the key, and in this body the
  character before \<open>state\<close> is an underscore; none of the four strings occurs, the
  state stays 0 and channel 3 is switched off.
\<close>

theorem longer_key_sets_on_counterexample:
  \<open>process_http_request ''<html></html>''
     (''POST /api/relay/3 HTTP/1.1'' @ CRLF @ CRLF @ ''{"other_state":1}'')
     \<lparr>g_relay_states = [0, 0, 1, 0, 0, 0, 0, 0], gpio = [], sent = []\<rparr>
   = Inr \<lparr>g_relay_states = [0, 0, 0, 0, 0, 0, 0, 0],
          gpio = [Gpio_put RELAY_CH3 False],
          sent = [''HTTP/1.1 200 OK'' @ CRLF @ ''Content-Type: application/json'' @ CRLF @
                    ''Content-Length: 16'' @ CRLF @ ''Connection: close'' @ CRLF @ CRLF,
                  ''{"success":true}'']\<rparr>\<close>
proof -
  let ?req = \<open>''POST /api/relay/3 HTTP/1.1'' @ CRLF @ CRLF @ ''{"other_state":1}''\<close>
  let ?w = "\<lparr>g_relay_states = [0, 0, 1, 0, 0, 0, 0, 0], gpio = [], sent = []\<rparr>"
  have store: "length (g_relay_states ?w) = RELAY_COUNT"
    by (simp add: RELAY_COUNT_def)
  have chan: "1 \<le> (3::nat)" "(3::nat) \<le> 8"
    by simp_all
  have line: "sscanf_s_s (c_str ?req) 16 128 = Inr (''POST'', ''/api/relay/3'')"
    by (simp add: sscanf_s_s_def scan_s_def c_str_def CRLF_def isspace_def and_then_def)
  have uri: "take 11 ''/api/relay/3'' = ''/api/relay/''" "char_at ''/api/relay/3'' 11 = digit_char 3"
    by (simp_all add: char_at_def digit_char_def)
  have blank: \<open>strstr (c_str ?req) (CRLF @ CRLF) = Some (CRLF @ CRLF @ ''{"other_state":1}'')\<close>
    by (simp add: c_str_def CRLF_def)
  have none: \<open>\<not> sublist state_1 (drop 4 (CRLF @ CRLF @ ''{"other_state":1}''))\<close>
    \<open>\<not> sublist state_sp_1 (drop 4 (CRLF @ CRLF @ ''{"other_state":1}''))\<close>
    by (simp_all add: strstr_sublist [symmetric] CRLF_def state_1_def state_sp_1_def)
  then have off: \<open>(sublist state_1 (drop 4 (CRLF @ CRLF @ ''{"other_state":1}''))
      \<or> sublist state_sp_1 (drop 4 (CRLF @ CRLF @ ''{"other_state":1}''))) = False\<close>
    by simp
  show ?thesis
    unfolding post_relay_effect [OF store chan line uri blank] off http_header_success
      send_http_response_def
    by (simp add: relay_pins_def success_true_def)
qed

lemma quoted_key_needed:
  assumes \<open>\<not> sublist ''"state"'' body\<close>
  shows "\<not> sublist state_1 body" "\<not> sublist state_sp_1 body"
    "\<not> sublist state_0 body" "\<not> sublist state_sp_0 body"
proof -
  have \<open>sublist ''"state"'' state_1\<close> \<open>sublist ''"state"'' state_sp_1\<close>
    \<open>sublist ''"state"'' state_0\<close> \<open>sublist ''"state"'' state_sp_0\<close>
    by (simp_all add: strstr_sublist [symmetric] state_1_def state_sp_1_def state_0_def state_sp_0_def)
  with assms show "\<not> sublist state_1 body" "\<not> sublist state_sp_1 body"
    "\<not> sublist state_0 body" "\<not> sublist state_sp_0 body"
    using sublist_order.order_trans by blast+
qed

text \<open>
  Claim C8, amended. The search is for the literal text with the opening quote of the
  key. A body that contains \<open>"other_state":1\<close> and nowhere the quoted key \<open>"state"\<close>
  matches none of the four strings, and channel \<open>n\<close> is set to 0. A body in which
  \<open>"state":1\<close> stands only inside something longer is still read as ON, and channel
  \<open>n\<close> is set to 1: inside a key that has a quote right before \<open>state\<close>, as the JSON
  key written \<open>"my\"state"\<close>, or as the beginning of the value in \<open>"state":10\<close>.
\<close>

theorem substring_match_scope:
  assumes store: "length (g_relay_states w) = RELAY_COUNT"
    and chan: "1 \<le> n" "n \<le> 8"
    and line: "sscanf_s_s (c_str request) 16 128 = Inr (''POST'', uri)"
    and uri: "take 11 uri = ''/api/relay/''" "char_at uri 11 = digit_char n"
    and blank: "strstr (c_str request) (CRLF @ CRLF) = Some found"
  shows \<open>(sublist ''"other_state":1'' (drop 4 found) \<and> \<not> sublist ''"state"'' (drop 4 found) \<longrightarrow>
            (\<exists>w'. process_http_request page request w = Inr w'
                \<and> g_relay_states w' = (g_relay_states w)[n - 1 := 0]))
       \<and> (sublist (''"my'' @ [CHR 0x5C] @ ''"state":1'') (drop 4 found)
            \<or> sublist ''"state":10'' (drop 4 found) \<longrightarrow>
            (\<exists>w'. process_http_request page request w = Inr w'
                \<and> g_relay_states w' = (g_relay_states w)[n - 1 := 1]))\<close>
proof (intro conjI impI)
  assume \<open>sublist ''"other_state":1'' (drop 4 found) \<and> \<not> sublist ''"state"'' (drop 4 found)\<close>
  then have "\<not> sublist state_1 (drop 4 found)" "\<not> sublist state_sp_1 (drop 4 found)"
    using quoted_key_needed by blast+
  then show "\<exists>w'. process_http_request page request w = Inr w'
                \<and> g_relay_states w' = (g_relay_states w)[n - 1 := 0]"
    unfolding post_relay_effect [OF store chan line uri blank]
    by (simp add: send_http_response_def)
next
  assume longer: \<open>sublist (''"my'' @ [CHR 0x5C] @ ''"state":1'') (drop 4 found)
            \<or> sublist ''"state":10'' (drop 4 found)\<close>
  have \<open>sublist state_1 (''"my'' @ [CHR 0x5C] @ ''"state":1'')\<close> \<open>sublist state_1 ''"state":10''\<close>
    by (simp_all add: strstr_sublist [symmetric] state_1_def)
  with longer have "sublist state_1 (drop 4 found)"
    using sublist_order.order_trans by blast
  then show "\<exists>w'. process_http_request page request w = Inr w'
                \<and> g_relay_states w' = (g_relay_states w)[n - 1 := 1]"
    unfolding post_relay_effect [OF store chan line uri blank]
    by (simp add: send_http_response_def)
qed

theorem substring_match_scope_witness:
  \<open>(\<exists>w'. process_http_request ''<html></html>''
           (''POST /api/relay/3 HTTP/1.1'' @ CRLF @ CRLF @ ''{"other_state":1}'')
           (startup\<lparr>g_relay_states := [1, 1, 1, 1, 1, 1, 1, 1]\<rparr>) = Inr w'
        \<and> g_relay_states w' = [1, 1, 0, 1, 1, 1, 1, 1])
   \<and> (\<exists>w'. process_http_request ''<html></html>''
           (''POST /api/relay/3 HTTP/1.1'' @ CRLF @ CRLF @ ''{"state":10}'') startup = Inr w'
        \<and> g_relay_states w' = [0, 0, 1, 0, 0, 0, 0, 0])
   \<and> (\<exists>w'. process_http_request ''<html></html>''
           (''POST /api/relay/3 HTTP/1.1'' @ CRLF @ CRLF @ ''{"my'' @ [CHR 0x5C] @ ''"state":1}'') startup
           = Inr w'
        \<and> g_relay_states w' = [0, 0, 1, 0, 0, 0, 0, 0])\<close>
proof -
  let ?other = \<open>''POST /api/relay/3 HTTP/1.1'' @ CRLF @ CRLF @ ''{"other_state":1}''\<close>
  let ?ten = \<open>''POST /api/relay/3 HTTP/1.1'' @ CRLF @ CRLF @ ''{"state":10}''\<close>
  let ?esc = \<open>''POST /api/relay/3 HTTP/1.1'' @ CRLF @ CRLF @ ''{"my'' @ [CHR 0x5C] @ ''"state":1}''\<close>
  let ?w = "startup\<lparr>g_relay_states := [1, 1, 1, 1, 1, 1, 1, 1]\<rparr>"
  have store: "length (g_relay_states ?w) = RELAY_COUNT" "length (g_relay_states startup) = RELAY_COUNT"
    by (simp_all add: startup_def RELAY_COUNT_def)
  have chan: "1 \<le> (3::nat)" "(3::nat) \<le> 8"
    by simp_all
  have line: "sscanf_s_s (c_str ?other) 16 128 = Inr (''POST'', ''/api/relay/3'')"
    "sscanf_s_s (c_str ?ten) 16 128 = Inr (''POST'', ''/api/relay/3'')"
    "sscanf_s_s (c_str ?esc) 16 128 = Inr (''POST'', ''/api/relay/3'')"
    by (simp_all add: sscanf_s_s_def scan_s_def c_str_def CRLF_def isspace_def and_then_def)
  have uri: "take 11 ''/api/relay/3'' = ''/api/relay/''" "char_at ''/api/relay/3'' 11 = digit_char 3"
    by (simp_all add: char_at_def digit_char_def)
  have blank: \<open>strstr (c_str ?other) (CRLF @ CRLF) = Some (CRLF @ CRLF @ ''{"other_state":1}'')\<close>
    \<open>strstr (c_str ?ten) (CRLF @ CRLF) = Some (CRLF @ CRLF @ ''{"state":10}'')\<close>
    \<open>strstr (c_str ?esc) (CRLF @ CRLF) = Some (CRLF @ CRLF @ ''{"my'' @ [CHR 0x5C] @ ''"state":1}'')\<close>
    by (simp_all add: c_str_def CRLF_def)
  have body: \<open>sublist ''"other_state":1'' (drop 4 (CRLF @ CRLF @ ''{"other_state":1}''))
      \<and> \<not> sublist ''"state"'' (drop 4 (CRLF @ CRLF @ ''{"other_state":1}''))\<close>
    \<open>sublist ''"state":10'' (drop 4 (CRLF @ CRLF @ ''{"state":10}''))\<close>
    \<open>sublist (''"my'' @ [CHR 0x5C] @ ''"state":1'')
       (drop 4 (CRLF @ CRLF @ ''{"my'' @ [CHR 0x5C] @ ''"state":1}''))\<close>
    by (simp_all add: strstr_sublist [symmetric] CRLF_def)
  have upd: "(g_relay_states ?w)[3 - 1 := 0] = [1, 1, 0, 1, 1, 1, 1, 1]"
    "(g_relay_states startup)[3 - 1 := 1] = [0, 0, 1, 0, 0, 0, 0, 0]"
    by (simp_all add: startup_def RELAY_COUNT_def eval_nat_numeral)
  have off: "\<exists>w'. process_http_request ''<html></html>'' ?other ?w = Inr w'
      \<and> g_relay_states w' = (g_relay_states ?w)[3 - 1 := 0]"
    using substring_match_scope [OF store(1) chan line(1) uri blank(1), of \<open>''<html></html>''\<close>] body(1)
    by blast
  have ten: "\<exists>w'. process_http_request ''<html></html>'' ?ten startup = Inr w'
      \<and> g_relay_states w' = (g_relay_states startup)[3 - 1 := 1]"
    using substring_match_scope [OF store(2) chan line(2) uri blank(2), of \<open>''<html></html>''\<close>] body(2)
    by blast
  have esc: "\<exists>w'. process_http_request ''<html></html>'' ?esc startup = Inr w'
      \<and> g_relay_states w' = (g_relay_states startup)[3 - 1 := 1]"
    using substring_match_scope [OF store(2) chan line(3) uri blank(3), of \<open>''<html></html>''\<close>] body(3)
    by blast
  from off ten esc show ?thesis
    unfolding upd by (intro conjI)
qed

section \<open>The invariant is kept\<close>

lemma scan_s_fault: "scan_s input n = Inl e \<Longrightarrow> e = Buffer_overrun"
  by (simp add: scan_s_def Let_def split: if_splits)

lemma sscanf_s_s_fault: "sscanf_s_s input n1 n2 = Inl e \<Longrightarrow> e = Buffer_overrun"
  by (auto simp: sscanf_s_s_def and_then_def split: sum.splits option.splits prod.splits
      dest: scan_s_fault)

lemma set_relay_keeps_store_ok:
  assumes ok: "relay_store_ok (g_relay_states w)"
  shows "\<exists>w'. set_relay n s w = Inr w' \<and> relay_store_ok (g_relay_states w')
           \<and> (1 \<le> uint n \<and> uint n \<le> 8 \<longrightarrow>
                g_relay_states w' = (g_relay_states w)[nat (uint n - 1) := (if s = 0 then 0 else 1)])
           \<and> (\<not> (1 \<le> uint n \<and> uint n \<le> 8) \<longrightarrow> w' = w)"
proof (cases "1 \<le> uint n \<and> uint n \<le> 8")
  case True
  then have rng: "1 \<le> uint n" "uint n \<le> 8" by simp_all
  from ok have store: "length (g_relay_states w) = RELAY_COUNT"
    by (simp add: relay_store_ok_def)
  have "relay_store_ok ((g_relay_states w)[nat (uint n - 1) := (if s \<noteq> 0 then 1 else 0)])"
    using ok set_update_subset_insert [of "g_relay_states w" "nat (uint n - 1)" "if s \<noteq> 0 then 1 else 0"]
    by (auto simp: relay_store_ok_def list_all_iff)
  then show ?thesis
    unfolding set_relay_in_range [OF store rng] using True by auto
next
  case False
  then have "set_relay n s w = Inr w"
    by (rule set_relay_out_of_range)
  with ok False show ?thesis by auto
qed

lemma process_keeps_store_ok:
  assumes ok: "relay_store_ok (g_relay_states w)"
  shows "case process_http_request page request w of
           Inl e \<Rightarrow> e = Buffer_overrun \<and> sscanf_s_s (c_str request) 16 128 = Inl Buffer_overrun
         | Inr w' \<Rightarrow> relay_store_ok (g_relay_states w')"
proof (cases "sscanf_s_s (c_str request) 16 128")
  case (Inl e)
  then have "e = Buffer_overrun"
    by (rule sscanf_s_s_fault)
  with Inl show ?thesis
    by (simp add: process_http_request_def and_then_def)
next
  case (Inr tokens)
  then obtain meth uri where line: "sscanf_s_s (c_str request) 16 128 = Inr (meth, uri)"
    by (cases tokens) simp
  from ok have store: "length (g_relay_states w) = RELAY_COUNT"
    by (simp add: relay_store_ok_def)
  have all: "relay_store_ok (replicate RELAY_COUNT 1)" "relay_store_ok (replicate RELAY_COUNT 0)"
    by (simp_all add: relay_store_ok_def list_all_iff)
  consider (get) "meth = ''GET''"
    | (one) "meth = ''POST''" "take 11 uri = ''/api/relay/''"
    | (rest) "meth = ''POST''" "take 11 uri \<noteq> ''/api/relay/''"
    | (other) "meth \<noteq> ''GET''" "meth \<noteq> ''POST''"
    by blast
  then show ?thesis
  proof cases
    case get
    with ok show ?thesis
      by (simp add: process_http_request_def line and_then_def get_relays_json_text [OF store]
          send_http_response_def)
  next
    case one
    show ?thesis
    proof (cases "strstr (c_str request) (CRLF @ CRLF)")
      case None
      with ok show ?thesis
        by (simp add: post_relay_route_none [OF line [unfolded one(1)] one(2)])
    next
      case (Some found)
      note route = post_relay_route [OF line [unfolded one(1)] one(2) Some, of page w]
      from set_relay_keeps_store_ok [OF ok] obtain w'
        where "set_relay (word_of_int (of_char (char_at uri 11) - of_char (CHR ''0'')))
                 (if sublist state_1 (drop 4 found) \<or> sublist state_sp_1 (drop 4 found) then 1 else 0) w
               = Inr w'"
          and "relay_store_ok (g_relay_states w')"
        by blast
      then show ?thesis
        unfolding route by (simp add: and_then_def send_http_response_def)
    qed
  next
    case rest
    with ok all show ?thesis
      by (simp add: process_http_request_def line and_then_def strncmp_eq_def
          set_all_loop_on [OF store] set_all_loop_off [OF store] send_http_response_def)
  next
    case other
    with ok show ?thesis
      by (simp add: other_method_route [OF line])
  qed
qed

text \<open>
  A first token of 16 characters or more does not fit \<open>meth[16]\<close>: the model stops
  with the fault, and says nothing about the state after it.
\<close>

lemma long_token_route:
  assumes "scan_s (c_str request) 16 = Inl Buffer_overrun"
  shows "process_http_request page request w = Inl Buffer_overrun"
  using assms by (simp add: process_http_request_def sscanf_s_s_def and_then_def)

lemma long_method_overruns_buffer:
  "process_http_request page (''AAAAAAAAAAAAAAAA / HTTP/1.1'' @ CRLF @ CRLF) w = Inl Buffer_overrun"
proof -
  have "scan_s (c_str (''AAAAAAAAAAAAAAAA / HTTP/1.1'' @ CRLF @ CRLF)) 16 = Inl Buffer_overrun"
    by (simp add: scan_s_def c_str_def CRLF_def isspace_def)
  then show ?thesis
    by (rule long_token_route)
qed

lemma scan_s_long_token:
  assumes "tok \<noteq> []" and "\<forall>c \<in> set tok. \<not> isspace c" and "n \<le> length tok" and "isspace d"
  shows "scan_s (tok @ d # rest) n = Inl Buffer_overrun"
proof -
  from assms(1) obtain t ts where tok: "tok = t # ts"
    by (cases tok) simp_all
  with assms(2) have "\<not> isspace t"
    by simp
  then have skip: "dropWhile isspace (tok @ d # rest) = tok @ d # rest"
    by (simp add: tok)
  have "takeWhile (\<lambda>c. \<not> isspace c) (tok @ d # rest) = tok"
    using assms(2,4) by (simp add: takeWhile_append2)
  then show ?thesis
    using assms(1,3) by (simp add: scan_s_def skip Let_def)
qed

text \<open>
  Claim C10. The claim promises the invariant after any request whatsoever. What the
  code does with a request whose first token has 16 characters or more, or whose
  target after \<open>GET\<close> has 128 or more: \<open>sscanf\<close> stores the token and its NUL past the end
  of \<open>method[16]\<close> or \<open>uri[128]\<close>, since neither \<open>%s\<close> has a field width. Processing
  stops at this overrun; it ends in no state of which the invariant could hold.
\<close>

theorem unbounded_scan_overruns_buffer:
  assumes tok: "tok \<noteq> []" "\<forall>c \<in> set tok. \<not> isspace c \<and> c \<noteq> CHR 0x00"
  shows "(16 \<le> length tok \<longrightarrow>
            process_http_request page (tok @ '' '' @ rest) w = Inl Buffer_overrun)
       \<and> (128 \<le> length tok \<longrightarrow>
            process_http_request page (''GET '' @ tok @ '' '' @ rest) w = Inl Buffer_overrun)"
proof (intro conjI impI)
  have sp: "isspace (CHR 0x20)"
    by (simp add: isspace_def)
  from tok(2) have plain: "\<forall>c \<in> set tok. \<not> isspace c"
    by blast
  {
    assume long: "16 \<le> length tok"
    have "c_str (tok @ '' '' @ rest) = tok @ CHR 0x20 # c_str rest"
      using tok(2) by (simp add: c_str_def takeWhile_append2)
    moreover have "scan_s (tok @ CHR 0x20 # c_str rest) 16 = Inl Buffer_overrun"
      using tok(1) plain long sp by (rule scan_s_long_token)
    ultimately have "scan_s (c_str (tok @ '' '' @ rest)) 16 = Inl Buffer_overrun"
      by simp
    then show "process_http_request page (tok @ '' '' @ rest) w = Inl Buffer_overrun"
      by (rule long_token_route)
  }
  {
    assume long: "128 \<le> length tok"
    have "c_str (''GET '' @ tok @ '' '' @ rest) = ''GET'' @ CHR 0x20 # (tok @ CHR 0x20 # c_str rest)"
      using tok(2) by (simp add: c_str_def takeWhile_append2)
    moreover have "scan_s (''GET'' @ CHR 0x20 # (tok @ CHR 0x20 # c_str rest)) 16
        = Inr (Some ''GET'', CHR 0x20 # (tok @ CHR 0x20 # c_str rest))"
      using sp by (intro scan_s_token) (simp_all add: isspace_def)
    moreover have "scan_s (CHR 0x20 # (tok @ CHR 0x20 # c_str rest)) 128 = Inl Buffer_overrun"
      unfolding scan_s_skips_blank using tok(1) plain long sp by (rule scan_s_long_token)
    ultimately have "sscanf_s_s (c_str (''GET '' @ tok @ '' '' @ rest)) 16 128 = Inl Buffer_overrun"
      by (simp add: sscanf_s_s_def and_then_def)
    then show "process_http_request page (''GET '' @ tok @ '' '' @ rest) w = Inl Buffer_overrun"
      by (simp add: process_http_request_def and_then_def)
  }
qed

theorem unbounded_scan_overruns_buffer_witness:
  "process_http_request ''<html></html>''
     (''AAAAAAAAAAAAAAAA'' @ '' '' @ (''/ HTTP/1.1'' @ CRLF @ CRLF)) startup = Inl Buffer_overrun
   \<and> process_http_request ''<html></html>''
     (''GET '' @ (CHR ''/'' # replicate 127 (CHR ''a'')) @ '' '' @ (''HTTP/1.1'' @ CRLF @ CRLF)) startup
       = Inl Buffer_overrun
   \<and> length ''AAAAAAAAAAAAAAAA'' = 16 \<and> length (CHR ''/'' # replicate 127 (CHR ''a'')) = 128"
proof -
  have a: "''AAAAAAAAAAAAAAAA'' \<noteq> []"
    "\<forall>c \<in> set ''AAAAAAAAAAAAAAAA''. \<not> isspace c \<and> c \<noteq> CHR 0x00"
    "16 \<le> length ''AAAAAAAAAAAAAAAA''"
    by (simp_all add: isspace_def)
  have b: "CHR ''/'' # replicate 127 (CHR ''a'') \<noteq> []"
    "\<forall>c \<in> set (CHR ''/'' # replicate 127 (CHR ''a'')). \<not> isspace c \<and> c \<noteq> CHR 0x00"
    "128 \<le> length (CHR ''/'' # replicate 127 (CHR ''a''))"
    by (simp_all add: isspace_def)
  from unbounded_scan_overruns_buffer [OF a(1,2), of \<open>''<html></html>''\<close> "''/ HTTP/1.1'' @ CRLF @ CRLF" startup] a(3)
  have one: "process_http_request ''<html></html>''
     (''AAAAAAAAAAAAAAAA'' @ '' '' @ (''/ HTTP/1.1'' @ CRLF @ CRLF)) startup = Inl Buffer_overrun"
    by blast
  from unbounded_scan_overruns_buffer [OF b(1,2), of \<open>''<html></html>''\<close> "''HTTP/1.1'' @ CRLF @ CRLF" startup] b(3)
  have two: "process_http_request ''<html></html>''
     (''GET '' @ (CHR ''/'' # replicate 127 (CHR ''a'')) @ '' '' @ (''HTTP/1.1'' @ CRLF @ CRLF)) startup
       = Inl Buffer_overrun"
    by blast
  have len: "length ''AAAAAAAAAAAAAAAA'' = 16" "length (CHR ''/'' # replicate 127 (CHR ''a'')) = 128"
    by simp_all
  from one two len show ?thesis
    by (intro conjI)
qed

text \<open>
  What the code keeps of the invariant. The store has eight entries, all 0, at program
  start. \<open>relay_init\<close> completes on a store of eight entries and leaves all of them 0.
  \<open>set_relay\<close>, for every channel number and every state argument, completes on a store
  that satisfies the invariant and keeps it: a channel number from 1 to 8 writes entry
  \<open>relay_num - 1\<close> only, 0 for the state 0 and 1 for every other state, and any other
  channel number writes nothing. Processing a request in a state that satisfies the
  invariant either ends in a state that satisfies it, or stops at the overrun shown
  above; no access to the store is ever out of range.
\<close>

theorem relay_store_invariant:
  "relay_store_ok (g_relay_states startup)
   \<and> (length (g_relay_states w) = RELAY_COUNT \<longrightarrow>
        (\<exists>w'. relay_init w = Inr w' \<and> g_relay_states w' = replicate RELAY_COUNT 0
            \<and> relay_store_ok (g_relay_states w')))
   \<and> (relay_store_ok (g_relay_states w) \<longrightarrow>
        (\<exists>w'. set_relay n s w = Inr w' \<and> relay_store_ok (g_relay_states w')
            \<and> (1 \<le> uint n \<and> uint n \<le> 8 \<longrightarrow>
                 g_relay_states w' = (g_relay_states w)[nat (uint n - 1) := (if s = 0 then 0 else 1)])
            \<and> (\<not> (1 \<le> uint n \<and> uint n \<le> 8) \<longrightarrow> w' = w)))
   \<and> (relay_store_ok (g_relay_states w) \<longrightarrow>
        (case process_http_request page request w of
           Inl e \<Rightarrow> e = Buffer_overrun \<and> sscanf_s_s (c_str request) 16 128 = Inl Buffer_overrun
         | Inr w' \<Rightarrow> relay_store_ok (g_relay_states w')))"
proof (intro conjI impI)
  show "relay_store_ok (g_relay_states startup)"
    by (simp add: relay_store_ok_def startup_def list_all_iff)
next
  assume "length (g_relay_states w) = RELAY_COUNT"
  then obtain w' where "relay_init w = Inr w'" "g_relay_states w' = replicate RELAY_COUNT 0"
    using relay_init_result by blast
  moreover have "relay_store_ok (replicate RELAY_COUNT 0)"
    by (simp add: relay_store_ok_def list_all_iff)
  ultimately show "\<exists>w'. relay_init w = Inr w' \<and> g_relay_states w' = replicate RELAY_COUNT 0
            \<and> relay_store_ok (g_relay_states w')"
    by simp
next
  assume "relay_store_ok (g_relay_states w)"
  then show "\<exists>w'. set_relay n s w = Inr w' \<and> relay_store_ok (g_relay_states w')
            \<and> (1 \<le> uint n \<and> uint n \<le> 8 \<longrightarrow>
                 g_relay_states w' = (g_relay_states w)[nat (uint n - 1) := (if s = 0 then 0 else 1)])
            \<and> (\<not> (1 \<le> uint n \<and> uint n \<le> 8) \<longrightarrow> w' = w)"
    by (rule set_relay_keeps_store_ok)
next
  assume "relay_store_ok (g_relay_states w)"
  then show "case process_http_request page request w of
           Inl e \<Rightarrow> e = Buffer_overrun \<and> sscanf_s_s (c_str request) 16 128 = Inl Buffer_overrun
         | Inr w' \<Rightarrow> relay_store_ok (g_relay_states w')"
    by (rule process_keeps_store_ok)
qed

theorem relay_store_invariant_witness:
  \<open>relay_store_ok (g_relay_states startup)
   \<and> (\<exists>w'. relay_init startup = Inr w' \<and> g_relay_states w' = [0, 0, 0, 0, 0, 0, 0, 0])
   \<and> (\<exists>w'. set_relay 3 255 startup = Inr w' \<and> relay_store_ok (g_relay_states w')
         \<and> g_relay_states w' = [0, 0, 1, 0, 0, 0, 0, 0])
   \<and> (\<exists>w'. process_http_request ''<html></html>''
              (''POST /api/relay/3 HTTP/1.1'' @ CRLF @ CRLF @ ''{"state":1}'') startup = Inr w'
         \<and> relay_store_ok (g_relay_states w'))\<close>
proof -
  let ?req = \<open>''POST /api/relay/3 HTTP/1.1'' @ CRLF @ CRLF @ ''{"state":1}''\<close>
  note inv = relay_store_invariant [where w = startup and n = 3 and s = 255
      and page = \<open>''<html></html>''\<close> and request = ?req]
  from inv have ok: "relay_store_ok (g_relay_states startup)"
    by (rule conjunct1)
  then have store: "length (g_relay_states startup) = RELAY_COUNT"
    by (simp add: relay_store_ok_def)
  have zeros: "replicate RELAY_COUNT (0 :: 8 word) = [0, 0, 0, 0, 0, 0, 0, 0]"
    by (simp add: RELAY_COUNT_def eval_nat_numeral)
  from inv store have init: "\<exists>w'. relay_init startup = Inr w' \<and> g_relay_states w' = [0, 0, 0, 0, 0, 0, 0, 0]"
    unfolding zeros by blast
  have rng: "1 \<le> uint (3 :: 8 word) \<and> uint (3 :: 8 word) \<le> 8"
    by simp
  have upd: "(g_relay_states startup)[nat (uint (3 :: 8 word) - 1) := (if (255 :: 8 word) = 0 then 0 else 1)]
      = [0, 0, 1, 0, 0, 0, 0, 0]"
    by (simp add: startup_def zeros list_update_code)
  from inv ok rng have set: "\<exists>w'. set_relay 3 255 startup = Inr w' \<and> relay_store_ok (g_relay_states w')
         \<and> g_relay_states w' = [0, 0, 1, 0, 0, 0, 0, 0]"
    unfolding upd [symmetric] by blast
  have line: "sscanf_s_s (c_str ?req) 16 128 = Inr (''POST'', ''/api/relay/3'')"
    by (simp add: sscanf_s_s_def scan_s_def c_str_def CRLF_def isspace_def and_then_def)
  from inv ok have run: "case process_http_request ''<html></html>'' ?req startup of
           Inl e \<Rightarrow> e = Buffer_overrun \<and> sscanf_s_s (c_str ?req) 16 128 = Inl Buffer_overrun
         | Inr w' \<Rightarrow> relay_store_ok (g_relay_states w')"
    by blast
  have req: "\<exists>w'. process_http_request ''<html></html>'' ?req startup = Inr w'
         \<and> relay_store_ok (g_relay_states w')"
  proof (cases "process_http_request ''<html></html>'' ?req startup")
    case (Inl e)
    with run have "sscanf_s_s (c_str ?req) 16 128 = Inl Buffer_overrun"
      by simp
    with line show ?thesis
      by simp
  next
    case (Inr w')
    with run show ?thesis
      by simp
  qed
  from ok init set req show ?thesis
    by (intro conjI)
qed

end
